theory Spec2Isabelle
  imports Complex_Main
begin

section \<open>STREAM (stream.c): a shallow embedding\<close>

text \<open>
  The program is the single function \<open>main\<close> of stream.c with its two helpers
  \<open>checktick\<close> and \<open>mysecond\<close>. Everything outside the program is an input of the
  model: the argument vector, the compile-time macros, the size of the OpenMP team, the
  results of \<open>malloc\<close>, the samples of the monotonic clock and the order in which the
  threads of a parallel region take their steps.

  Values of type \<open>double\<close> (and of \<open>STREAM_TYPE\<close>) are modelled by the real numbers
  they denote. Rounding is modelled where an integer is stored in a \<open>double\<close> and for
  the quotient that gives \<open>array_size\<close>; the arithmetic on clock values and on array
  elements is that of the reals. Conversions from \<open>double\<close> to \<open>int\<close> truncate and
  are undefined outside the range of \<open>int\<close>, as in C.
\<close>

subsection \<open>Macros and configuration\<close>

text \<open>\<^verbatim>\<open>#define MIN(x,y) ((x)<(y)?(x):(y))\<close> and \<^verbatim>\<open>#define MAX(x,y) ((x)>(y)?(x):(y))\<close>\<close>

definition MIN_macro :: "'a::linorder \<Rightarrow> 'a \<Rightarrow> 'a" where
  "MIN_macro x y = (if x < y then x else y)"

definition MAX_macro :: "'a::linorder \<Rightarrow> 'a \<Rightarrow> 'a" where
  "MAX_macro x y = (if x > y then x else y)"

definition SCALAR :: real where
  "SCALAR = 3.0"

definition M :: nat where
  "M = 20"

definition HLINE :: string where
  "HLINE = ''--------------------------------------------------------------------\<newline>''"

definition label :: "string list" where
  "label = [''Copy:      '', ''Scale:     '', ''Add:       '', ''Triad:     '']"

definition INT_MAX :: int where
  "INT_MAX = 2147483647"

definition INT_MIN :: int where
  "INT_MIN = - 2147483648"

definition ULONG_MAX :: nat where
  "ULONG_MAX = 18446744073709551615"

text \<open>
  The values given on the compile line: \<open>STREAM_ARRAY_SIZE_D\<close> and \<open>NTIMES_D\<close> are
  \<open>None\<close> when the macro is not defined there; \<open>sizeof_STREAM_TYPE\<close> is the byte width
  of the element type (8 for the default \<open>double\<close>).
\<close>

record config =
  STREAM_ARRAY_SIZE_D :: "nat option"
  NTIMES_D :: "int option"
  sizeof_STREAM_TYPE :: nat

text \<open>Lines 46-48: the default of \<open>STREAM_ARRAY_SIZE\<close>.\<close>

definition STREAM_ARRAY_SIZE :: "config \<Rightarrow> nat" where
  "STREAM_ARRAY_SIZE cfg =
     (case STREAM_ARRAY_SIZE_D cfg of None \<Rightarrow> 20000000 | Some n \<Rightarrow> n)"

text \<open>Lines 59-66: \<open>NTIMES\<close> is 10 when it is undefined or defined as a value below 2.\<close>

definition NTIMES :: "config \<Rightarrow> int" where
  "NTIMES cfg =
     (case NTIMES_D cfg of
        None \<Rightarrow> 10
      | Some n \<Rightarrow> if n \<le> 1 then 10 else n)"

definition default_config :: config where
  "default_config =
     \<lparr>STREAM_ARRAY_SIZE_D = None, NTIMES_D = None, sizeof_STREAM_TYPE = 8\<rparr>"

subsection \<open>Undefined behaviour and conversions\<close>

datatype fault =
    Null_deref
  | Out_of_bounds
  | Int_conversion
  | Int_overflow
  | Bad_argv

text \<open>
  A cast \<open>(int) x\<close> of a \<open>double\<close>: the value is truncated towards zero; when the
  truncated value is not an \<open>int\<close> the behaviour is undefined (\<open>None\<close>).
\<close>

definition trunc :: "real \<Rightarrow> int" where
  "trunc x = (if 0 \<le> x then \<lfloor>x\<rfloor> else \<lceil>x\<rceil>)"

definition double_to_int :: "real \<Rightarrow> int option" where
  "double_to_int x =
     (if INT_MIN \<le> trunc x \<and> trunc x \<le> INT_MAX then Some (trunc x) else None)"

text \<open>An \<open>int\<close> converted to \<open>size_t\<close> (64 bits).\<close>

definition to_size_t :: "int \<Rightarrow> nat" where
  "to_size_t v = nat (v mod 2 ^ 64)"

text \<open>
  An integer or a quotient stored in a \<open>double\<close> is rounded to the nearest number with
  a 53-bit significand, ties going to the even significand. \<open>exponent x\<close> is the \<open>e\<close>
  with \<open>2 ^ e \<le> x < 2 ^ (e + 1)\<close>, for positive \<open>x\<close>. The values rounded in this
  program are 0 or lie between \<open>2 ^ - 64\<close> and \<open>2 ^ 64\<close>, far from the ends of the
  exponent range, which are left out.
\<close>

fun bit_length :: "nat \<Rightarrow> nat" where
  "bit_length n = (if n = 0 then 0 else Suc (bit_length (n div 2)))"

declare bit_length.simps [simp del]

definition exponent :: "real \<Rightarrow> int" where
  "exponent x =
     (if 1 \<le> x then int (bit_length (nat \<lfloor>x\<rfloor>)) - 1
      else - int (bit_length (nat (\<lceil>1 / x\<rceil> - 1))))"

definition round_half_even :: "real \<Rightarrow> int" where
  "round_half_even y =
     (let f = \<lfloor>y\<rfloor>; r = y - of_int f
      in if r < 1 / 2 then f
         else if 1 / 2 < r then f + 1
         else if even f then f else f + 1)"

definition to_double :: "real \<Rightarrow> real" where
  "to_double x =
     (if x \<le> 0 then 0
      else let e = exponent x
           in if e \<le> 52
              then of_int (round_half_even (x * 2 ^ nat (52 - e))) / 2 ^ nat (52 - e)
              else of_int (round_half_even (x / 2 ^ nat (e - 52))) * 2 ^ nat (e - 52))"

subsection \<open>The C library function strtoul, base 10\<close>

text \<open>
  \<open>strtoul\<close> belongs to the C library. It is modelled after its description in the C
  standard (7.22.1.4): leading white space is skipped, an optional sign is read, then the
  longest run of decimal digits. Without a digit the result is 0 and the end pointer is
  the start of the string. A value beyond \<open>ULONG_MAX\<close> gives \<open>ULONG_MAX\<close>; otherwise a
  leading minus sign negates the value in the unsigned type.
\<close>

definition isspace :: "char \<Rightarrow> bool" where
  "isspace ch = (ch \<in> set [CHR '' '', CHR 0x09, CHR 0x0A, CHR 0x0B, CHR 0x0C, CHR 0x0D])"

definition isdigit :: "char \<Rightarrow> bool" where
  "isdigit ch = (ch \<in> set ''0123456789'')"

definition digit_val :: "char \<Rightarrow> nat" where
  "digit_val ch = of_char ch - 48"

fun skip_space :: "string \<Rightarrow> string" where
  "skip_space [] = []"
| "skip_space (ch # s) = (if isspace ch then skip_space s else ch # s)"

fun read_digits :: "nat \<Rightarrow> string \<Rightarrow> nat \<times> string" where
  "read_digits acc [] = (acc, [])"
| "read_digits acc (ch # s) =
     (if isdigit ch then read_digits (10 * acc + digit_val ch) s else (acc, ch # s))"

definition strtoul :: "string \<Rightarrow> nat \<times> string" where
  "strtoul nptr =
     (let s = skip_space nptr;
          neg = (s \<noteq> [] \<and> hd s = CHR ''-'');
          s1 = (if s \<noteq> [] \<and> (hd s = CHR ''-'' \<or> hd s = CHR ''+'') then tl s else s)
      in if s1 = [] \<or> \<not> isdigit (hd s1) then (0, nptr)
         else let (v, rest) = read_digits 0 s1
              in if v > ULONG_MAX then (ULONG_MAX, rest)
                 else if neg then ((2 ^ 64 - v) mod 2 ^ 64, rest)
                 else (v, rest))"

text \<open>The number that a string of decimal digits denotes.\<close>

definition decimal_value :: "string \<Rightarrow> nat" where
  "decimal_value ds = foldl (\<lambda>acc ch. 10 * acc + digit_val ch) 0 ds"

subsection \<open>The timer\<close>

text \<open>
  \<open>mysecond\<close> (lines 371-376) turns one sample of \<open>clock_gettime(CLOCK_MONOTONIC)\<close>,
  a pair of seconds and nanoseconds, into seconds.
\<close>

definition mysecond :: "int \<times> int \<Rightarrow> real" where
  "mysecond sample = real_of_int (fst sample) + real_of_int (snd sample) / 1000000000"

subsection \<open>checktick\<close>

text \<open>
  The clock is the sequence of the values that successive calls of \<open>mysecond\<close> return;
  a position in it counts the calls made so far.

  Line 351: \<^verbatim>\<open>while(((t2 = mysecond()) - t1) < 1.0E-6);\<close> The loop runs forever on a
  clock that never gets one microsecond past \<open>t1\<close>; then \<open>spin\<close> is \<open>None\<close>.
\<close>

partial_function (option) spin :: "(nat \<Rightarrow> real) \<Rightarrow> real \<Rightarrow> nat \<Rightarrow> (real \<times> nat) option" where
  "spin clk t1 n =
     (let t2 = clk n
      in if t2 - t1 < 0.000001 then spin clk t1 (Suc n) else Some (t2, Suc n))"

text \<open>
  Lines 348-353: the loop that fills \<open>timesfound\<close>; the first argument counts the
  rounds that remain.
\<close>

fun collect_ticks :: "nat \<Rightarrow> (nat \<Rightarrow> real) \<Rightarrow> nat \<Rightarrow> (real list \<times> nat) option" where
  "collect_ticks 0 clk n = Some ([], n)"
| "collect_ticks (Suc r) clk n =
     (case spin clk (clk n) (Suc n) of
        None \<Rightarrow> None
      | Some (t2, n1) \<Rightarrow>
          (case collect_ticks r clk n1 of
             None \<Rightarrow> None
           | Some (ts, n2) \<Rightarrow> Some (t2 # ts, n2)))"

text \<open>Lines 361-366: one round of the loop over \<open>i = 1 .. M - 1\<close>.\<close>

definition delta_step :: "real list \<Rightarrow> nat \<Rightarrow> fault + int \<Rightarrow> fault + int" where
  "delta_step timesfound i acc =
     (case acc of
        Inl f \<Rightarrow> Inl f
      | Inr minDelta \<Rightarrow>
          (case double_to_int (1000000 * (timesfound ! i - timesfound ! (i - 1))) of
             None \<Rightarrow> Inl Int_conversion
           | Some Delta \<Rightarrow> Inr (MIN_macro minDelta (MAX_macro Delta 0))))"

definition min_delta :: "real list \<Rightarrow> fault + int" where
  "min_delta timesfound = fold (delta_step timesfound) [1..<M] (Inr 1000000)"

text \<open>
  \<open>checktick\<close> from position \<open>n\<close> of the clock: \<open>None\<close> when it never returns, otherwise
  the returned value (or the fault of an undefined conversion) and the new position.
\<close>

definition checktick :: "(nat \<Rightarrow> real) \<Rightarrow> nat \<Rightarrow> ((fault + int) \<times> nat) option" where
  "checktick clk n =
     (case collect_ticks M clk n of
        None \<Rightarrow> None
      | Some (timesfound, n1) \<Rightarrow> Some (min_delta timesfound, n1))"

subsection \<open>Buffers\<close>

text \<open>
  A buffer is what a pointer \<open>STREAM_TYPE *\<close> returned by \<open>malloc\<close> refers to: \<open>None\<close>
  is the null pointer, \<open>Some xs\<close> a block of its own holding the elements \<open>xs\<close>. The
  arrays \<open>a\<close>, \<open>b\<close> and \<open>c\<close> of \<open>main\<close> hold one buffer per thread.
\<close>

type_synonym buffer = "real list option"

record arrays =
  a_buf :: "buffer list"
  b_buf :: "buffer list"
  c_buf :: "buffer list"

definition and_then :: "'e + 'a \<Rightarrow> ('a \<Rightarrow> 'e + 'b) \<Rightarrow> 'e + 'b" where
  "and_then r f = (case r of Inl e \<Rightarrow> Inl e | Inr x \<Rightarrow> f x)"

text \<open>Reading and writing \<open>p[tid][i]\<close>.\<close>

definition read_at :: "buffer list \<Rightarrow> nat \<Rightarrow> int \<Rightarrow> fault + real" where
  "read_at p tid i =
     (case p ! tid of
        None \<Rightarrow> Inl Null_deref
      | Some xs \<Rightarrow>
          if 0 \<le> i \<and> i < int (length xs) then Inr (xs ! nat i) else Inl Out_of_bounds)"

definition write_at :: "buffer list \<Rightarrow> nat \<Rightarrow> int \<Rightarrow> real \<Rightarrow> fault + buffer list" where
  "write_at p tid i v =
     (case p ! tid of
        None \<Rightarrow> Inl Null_deref
      | Some xs \<Rightarrow>
          if 0 \<le> i \<and> i < int (length xs) then Inr (p[tid := Some (xs[nat i := v])])
          else Inl Out_of_bounds)"

subsection \<open>The loop bodies\<close>

text \<open>Lines 225-227.\<close>

definition init_body :: "nat \<Rightarrow> int \<Rightarrow> arrays \<Rightarrow> fault + arrays" where
  "init_body tid i m =
     and_then (write_at (a_buf m) tid i 1.0) (\<lambda>a'.
     and_then (write_at (b_buf m) tid i 2.0) (\<lambda>b'.
     and_then (write_at (c_buf m) tid i 0.0) (\<lambda>c'.
       Inr \<lparr>a_buf = a', b_buf = b', c_buf = c'\<rparr>)))"

text \<open>Line 238: \<^verbatim>\<open>a[tid][i] = 2.0E0 * a[tid][i];\<close>\<close>

definition double_body :: "nat \<Rightarrow> int \<Rightarrow> arrays \<Rightarrow> fault + arrays" where
  "double_body tid i m =
     and_then (read_at (a_buf m) tid i) (\<lambda>x.
     and_then (write_at (a_buf m) tid i (2.0 * x)) (\<lambda>a'.
       Inr (m\<lparr>a_buf := a'\<rparr>)))"

text \<open>Line 264: \<^verbatim>\<open>c[tid][i] = a[tid][i];\<close>\<close>

definition copy_body :: "nat \<Rightarrow> int \<Rightarrow> arrays \<Rightarrow> fault + arrays" where
  "copy_body tid i m =
     and_then (read_at (a_buf m) tid i) (\<lambda>x.
     and_then (write_at (c_buf m) tid i x) (\<lambda>c'.
       Inr (m\<lparr>c_buf := c'\<rparr>)))"

text \<open>Line 273: \<^verbatim>\<open>b[tid][i] = SCALAR * c[tid][i];\<close>\<close>

definition scale_body :: "nat \<Rightarrow> int \<Rightarrow> arrays \<Rightarrow> fault + arrays" where
  "scale_body tid i m =
     and_then (read_at (c_buf m) tid i) (\<lambda>z.
     and_then (write_at (b_buf m) tid i (SCALAR * z)) (\<lambda>b'.
       Inr (m\<lparr>b_buf := b'\<rparr>)))"

text \<open>Line 282: \<^verbatim>\<open>c[tid][i] = a[tid][i]+b[tid][i];\<close>\<close>

definition add_body :: "nat \<Rightarrow> int \<Rightarrow> arrays \<Rightarrow> fault + arrays" where
  "add_body tid i m =
     and_then (read_at (a_buf m) tid i) (\<lambda>x.
     and_then (read_at (b_buf m) tid i) (\<lambda>y.
     and_then (write_at (c_buf m) tid i (x + y)) (\<lambda>c'.
       Inr (m\<lparr>c_buf := c'\<rparr>))))"

text \<open>Line 291: \<^verbatim>\<open>a[tid][i] = b[tid][i] + SCALAR * c[tid][i];\<close>\<close>

definition triad_body :: "nat \<Rightarrow> int \<Rightarrow> arrays \<Rightarrow> fault + arrays" where
  "triad_body tid i m =
     and_then (read_at (b_buf m) tid i) (\<lambda>y.
     and_then (read_at (c_buf m) tid i) (\<lambda>z.
     and_then (write_at (a_buf m) tid i (y + SCALAR * z)) (\<lambda>a'.
       Inr (m\<lparr>a_buf := a'\<rparr>))))"

subsection \<open>Parallel regions\<close>

text \<open>
  Every loop over the buffers has the form
  \<^verbatim>\<open>#pragma omp parallel { int tid = omp_get_thread_num(); for (i = 0; i < array_size; i++) body }\<close>
  where \<open>i\<close> is the variable declared at the top of \<open>main\<close> (line 124). The loop is
  not the loop of a work-sharing construct, and \<open>i\<close> is declared outside the region
  without a \<open>private\<close> clause, so all threads of the team use the one variable \<open>i\<close>
  (\<open>tid\<close>, declared inside the region, is private).

  A thread's position in its loop is a program counter; a step of thread \<open>t\<close> executes
  one of \<open>i = 0\<close>, the test \<open>i < array_size\<close>, the body at the present value of \<open>i\<close>,
  and \<open>i++\<close>. Steps of different threads interleave. (Real executions can interleave
  within these steps as well; that only adds behaviours.) A body that runs into undefined
  behaviour stops the team with a fault; the memory is then left as it was before that
  body.
\<close>

datatype pc = At_init | At_test | At_body | At_incr | At_end

record team =
  shared_i :: int
  pcs :: "pc list"
  mem :: arrays
  team_fault :: "fault option"

definition step :: "(nat \<Rightarrow> int \<Rightarrow> arrays \<Rightarrow> fault + arrays) \<Rightarrow> int \<Rightarrow> nat \<Rightarrow> team \<Rightarrow> team" where
  "step body array_size t s =
     (if team_fault s \<noteq> None \<or> t \<ge> length (pcs s) then s
      else case pcs s ! t of
        At_init \<Rightarrow> s\<lparr>shared_i := 0, pcs := (pcs s)[t := At_test]\<rparr>
      | At_test \<Rightarrow>
          s\<lparr>pcs := (pcs s)[t := (if shared_i s < array_size then At_body else At_end)]\<rparr>
      | At_body \<Rightarrow>
          (case body t (shared_i s) (mem s) of
             Inl f \<Rightarrow> s\<lparr>team_fault := Some f\<rparr>
           | Inr m \<Rightarrow> s\<lparr>pcs := (pcs s)[t := At_incr], mem := m\<rparr>)
      | At_incr \<Rightarrow>
          if shared_i s = INT_MAX then s\<lparr>team_fault := Some Int_overflow\<rparr>
          else s\<lparr>shared_i := shared_i s + 1, pcs := (pcs s)[t := At_test]\<rparr>
      | At_end \<Rightarrow> s)"

text \<open>The number of steps thread \<open>t\<close> can still take when it runs alone.\<close>

definition steps_left :: "int \<Rightarrow> nat \<Rightarrow> team \<Rightarrow> nat" where
  "steps_left array_size t s =
     (if team_fault s \<noteq> None \<or> t \<ge> length (pcs s) then 0
      else case pcs s ! t of
        At_init \<Rightarrow> 3 * nat array_size + 5
      | At_test \<Rightarrow>
          if shared_i s < array_size then 3 * nat (array_size - shared_i s) + 4 else 1
      | At_body \<Rightarrow> 3 * nat (array_size - shared_i s) + 3
      | At_incr \<Rightarrow> 3 * nat (array_size - shared_i s) + 2
      | At_end \<Rightarrow> 0)"

text \<open>Thread \<open>t\<close> runs, undisturbed, to the end of its loop.\<close>

function run_thread ::
  "(nat \<Rightarrow> int \<Rightarrow> arrays \<Rightarrow> fault + arrays) \<Rightarrow> int \<Rightarrow> nat \<Rightarrow> team \<Rightarrow> team" where
  "run_thread body array_size t s =
     (if team_fault s \<noteq> None \<or> t \<ge> length (pcs s) \<or> pcs s ! t = At_end then s
      else run_thread body array_size t (step body array_size t s))"
  by pat_completeness auto
termination
  by (relation "measure (\<lambda>(body, array_size, t, s). steps_left array_size t s)")
     (auto simp: step_def steps_left_def split: pc.splits sum.splits)

declare run_thread.simps [simp del]

text \<open>
  A parallel region under a schedule: the threads named in \<open>sched\<close> take one step each,
  in that order; then every thread in turn runs to the end of its loop (the join at the
  end of the region). With the empty schedule the threads run one after the other and
  do not disturb each other's use of \<open>i\<close>.
\<close>

definition parallel_for ::
  "(nat \<Rightarrow> int \<Rightarrow> arrays \<Rightarrow> fault + arrays) \<Rightarrow> int \<Rightarrow> nat \<Rightarrow> nat list \<Rightarrow> int \<Rightarrow> arrays \<Rightarrow> team" where
  "parallel_for body array_size nthreads sched i0 m =
     (let s0 = \<lparr>shared_i = i0, pcs = replicate nthreads At_init, mem = m, team_fault = None\<rparr>;
          s1 = fold (step body array_size) sched s0
      in fold (run_thread body array_size) [0..<nthreads] s1)"

subsection \<open>Timing statistics and bandwidth\<close>

text \<open>
  Lines 296-316. \<open>times_tab\<close> is the table \<open>times[4][NTIMES]\<close>; the three results are
  the arrays \<open>avgtime\<close>, \<open>mintime\<close> and \<open>maxtime\<close>.
\<close>

type_synonym stats = "real list \<times> real list \<times> real list"

definition stats_init :: "real list list \<Rightarrow> stats" where
  "stats_init times_tab =
     fold (\<lambda>i (avgtime, mintime, maxtime).
             (avgtime[i := times_tab ! i ! 1], mintime[i := times_tab ! i ! 1],
              maxtime[i := times_tab ! i ! 1]))
       [0..<4] (replicate 4 0, replicate 4 0, replicate 4 0)"

definition stats_step :: "real list list \<Rightarrow> nat \<Rightarrow> stats \<Rightarrow> stats" where
  "stats_step times_tab k st =
     fold (\<lambda>i (avgtime, mintime, maxtime).
             (avgtime[i := avgtime ! i + times_tab ! i ! k],
              mintime[i := MIN_macro (mintime ! i) (times_tab ! i ! k)],
              maxtime[i := MAX_macro (maxtime ! i) (times_tab ! i ! k)]))
       [0..<4] st"

definition stats_final :: "int \<Rightarrow> stats \<Rightarrow> stats" where
  "stats_final ntimes st =
     (case st of (avgtime, mintime, maxtime) \<Rightarrow>
        (fold (\<lambda>i avg. avg[i := avg ! i / real_of_int (ntimes - 1)]) [0..<4] avgtime,
         mintime, maxtime))"

definition statistics :: "int \<Rightarrow> real list list \<Rightarrow> stats" where
  "statistics ntimes times_tab =
     stats_final ntimes (fold (stats_step times_tab) [2..<nat ntimes] (stats_init times_tab))"

definition avgtime_of :: "stats \<Rightarrow> real list" where
  "avgtime_of st = fst st"

definition mintime_of :: "stats \<Rightarrow> real list" where
  "mintime_of st = fst (snd st)"

definition maxtime_of :: "stats \<Rightarrow> real list" where
  "maxtime_of st = snd (snd st)"

text \<open>
  Lines 318-322: \<^verbatim>\<open>bytes[0] = 2 * sizeof(STREAM_TYPE) * array_size * nthreads;\<close> and so on.
  The product is formed in \<open>size_t\<close> and then stored in a \<open>double\<close>.
\<close>

definition bytes_entry :: "nat \<Rightarrow> nat \<Rightarrow> int \<Rightarrow> nat \<Rightarrow> real" where
  "bytes_entry factor elem_size array_size nthreads =
     to_double (real ((factor * elem_size * to_size_t array_size * nthreads) mod 2 ^ 64))"

definition bytes :: "nat \<Rightarrow> int \<Rightarrow> nat \<Rightarrow> real list" where
  "bytes elem_size array_size nthreads =
     [bytes_entry 2 elem_size array_size nthreads,
      bytes_entry 2 elem_size array_size nthreads,
      bytes_entry 3 elem_size array_size nthreads,
      bytes_entry 3 elem_size array_size nthreads]"

text \<open>
  A \<open>double\<close> that is the result of a division: dividing by zero gives an infinity or,
  for 0 / 0, a NaN (the dividend is never negative here).
\<close>

datatype xreal = Finite real | Infinite | Not_a_number

definition fdiv :: "real \<Rightarrow> real \<Rightarrow> xreal" where
  "fdiv x y = (if y = 0 then (if x = 0 then Not_a_number else Infinite) else Finite (x / y))"

text \<open>Line 329: the bandwidth printed for kernel \<open>i\<close>.\<close>

definition bandwidth :: "real list \<Rightarrow> real list \<Rightarrow> nat \<Rightarrow> xreal" where
  "bandwidth bytes_tab mintime i = fdiv (bytes_tab ! i / 1024 / 1024) (mintime ! i)"

subsection \<open>The state of a run\<close>

datatype parg = Int_arg int | Dbl_arg xreal | Str_arg string

text \<open>
  What lies outside the program: the samples of the clock, the size of the team that
  the OpenMP runtime forms, the number of processors and the processor of each thread
  (both only printed), whether \<open>malloc\<close> succeeds for buffer \<open>which\<close> (0, 1, 2 for
  \<open>a\<close>, \<open>b\<close>, \<open>c\<close>) of a thread and what a fresh block contains, and the schedule of
  each parallel loop (numbered in the order of execution).
\<close>

record env =
  clock_gettime :: "nat \<Rightarrow> int \<times> int"
  omp_get_num_threads :: nat
  sysconf_nprocessors :: int
  sched_getcpu :: "nat \<Rightarrow> int"
  malloc_ok :: "nat \<Rightarrow> nat \<Rightarrow> bool"
  fresh_contents :: "nat \<Rightarrow> nat \<Rightarrow> nat \<Rightarrow> real"
  schedule :: "nat \<Rightarrow> nat list"

text \<open>
  A run's state: the calls of \<open>printf\<close> so far (format and arguments), the number of
  clock samples taken, of parallel loops executed and of calls to \<open>malloc\<close>, the
  variable \<open>i\<close> of \<open>main\<close>, and the buffers.
\<close>

record world =
  stdout :: "(string \<times> parg list) list"
  clock_reads :: nat
  regions_run :: nat
  malloc_calls :: nat
  var_i :: int
  heap :: arrays

datatype status = Exit int | Undefined fault

definition printf :: "string \<Rightarrow> parg list \<Rightarrow> world \<Rightarrow> world" where
  "printf fmt args w = w\<lparr>stdout := stdout w @ [(fmt, args)]\<rparr>"

definition now :: "env \<Rightarrow> nat \<Rightarrow> real" where
  "now e n = mysecond (clock_gettime e n)"

text \<open>A call \<open>mysecond()\<close> in \<open>main\<close>.\<close>

definition read_clock :: "env \<Rightarrow> world \<Rightarrow> real \<times> world" where
  "read_clock e w = (now e (clock_reads w), w\<lparr>clock_reads := Suc (clock_reads w)\<rparr>)"

text \<open>One parallel loop of \<open>main\<close>, under the schedule the environment gives it.\<close>

definition omp_parallel_for ::
  "env \<Rightarrow> (nat \<Rightarrow> int \<Rightarrow> arrays \<Rightarrow> fault + arrays) \<Rightarrow> int \<Rightarrow> world \<Rightarrow> (status \<times> world) + world" where
  "omp_parallel_for e body array_size w =
     (let s = parallel_for body array_size (omp_get_num_threads e)
                (schedule e (regions_run w)) (var_i w) (heap w);
          w' = w\<lparr>regions_run := Suc (regions_run w), var_i := shared_i s, heap := mem s\<rparr>
      in case team_fault s of
           Some f \<Rightarrow> Inl (Undefined f, w')
         | None \<Rightarrow> Inr w')"

subsection \<open>The phases of main\<close>

definition prints :: "(string \<times> parg list) list \<Rightarrow> world \<Rightarrow> world" where
  "prints ps w = fold (\<lambda>(fmt, args). printf fmt args) ps w"

text \<open>At the start nothing is printed or allocated; \<open>i\<close> is written before it is read.\<close>

definition initial_world :: world where
  "initial_world =
     \<lparr>stdout = [], clock_reads = 0, regions_run = 0, malloc_calls = 0, var_i = 0,
      heap = \<lparr>a_buf = [], b_buf = [], c_buf = []\<rparr>\<rparr>"

text \<open>
  Lines 127-137. \<open>argv\<close> is the whole argument vector, the program name included, and
  \<open>argc\<close> its length. With an empty vector the else branch reads \<open>argv[1]\<close> past the
  end of the vector.
\<close>

definition read_arguments ::
  "config \<Rightarrow> string list \<Rightarrow> world \<Rightarrow> (status \<times> world) + (nat \<times> world)" where
  "read_arguments cfg argv w =
     (let argc = length argv
      in if argc = 1 \<or> argc > 2 then Inr (STREAM_ARRAY_SIZE cfg mod 2 ^ 64, w)
         else if argc = 0 then Inl (Undefined Bad_argv, w)
         else let stream_array_size = fst (strtoul (argv ! 1))
              in if stream_array_size < 1
                 then Inl (Exit (- 1), printf ''[ERROR] The input value is invalid!'' [] w)
                 else Inr (stream_array_size, w))"

text \<open>Lines 139-179.\<close>

definition banner :: "config \<Rightarrow> env \<Rightarrow> world \<Rightarrow> world" where
  "banner cfg e w =
     (let BytesPerWord = int (sizeof_STREAM_TYPE cfg);
          ncpus = sysconf_nprocessors e;
          nthreads = omp_get_num_threads e
      in (prints
           ([(HLINE, []),
             (''STREAM version by Daniele Cesarini\<newline>'', []),
             (HLINE, []),
             (''This system uses %d bytes per array element.\<newline>'', [Int_arg BytesPerWord]),
             (HLINE, []),
             (''Each kernel will be executed %d times.\<newline>'', [Int_arg (NTIMES cfg)]),
             (''The *best* time for each kernel (excluding the first iteration)\<newline>'', []),
             (''will be used to compute the reported bandwidth.\<newline>'', []),
             (HLINE, []),
             (''Total number of CPU: %d\<newline>'', [Int_arg ncpus]),
             (''Number of Threads requested = %d\<newline>'', [Int_arg (int nthreads)]),
             (HLINE, [])]
            @ map (\<lambda>i. (''Threads ID %d pinned on CPU %d\<newline>'',
                         [Int_arg (int i), Int_arg (sched_getcpu e i)])) [0..<nthreads]
            @ [(HLINE, [])]) w)
         \<lparr>var_i := int nthreads\<rparr>)"

text \<open>
  Line 182: \<^verbatim>\<open>int array_size = (int) ((double) stream_array_size / (double) nthreads);\<close>
  A team of size 0 would make the quotient infinite (or a NaN), which no \<open>int\<close> holds.
\<close>

definition array_size_of :: "nat \<Rightarrow> nat \<Rightarrow> int option" where
  "array_size_of stream_array_size nthreads =
     (if nthreads = 0 then None
      else double_to_int
             (to_double (to_double (real stream_array_size) / to_double (real nthreads))))"

text \<open>
  Lines 187-189: \<^verbatim>\<open>(STREAM_TYPE *) malloc(sizeof(STREAM_TYPE) * array_size)\<close>. A block
  that \<open>malloc\<close> grants holds as many elements as fit the requested number of bytes;
  its contents are whatever the environment left there. The result is not checked.
\<close>

definition malloc :: "env \<Rightarrow> nat \<Rightarrow> int \<Rightarrow> nat \<Rightarrow> nat \<Rightarrow> buffer" where
  "malloc e elem_size array_size tid which =
     (if malloc_ok e tid which
      then Some (map (fresh_contents e tid which)
                   [0..<((elem_size * to_size_t array_size) mod 2 ^ 64) div elem_size])
      else None)"

text \<open>Lines 182-202.\<close>

definition allocate ::
  "config \<Rightarrow> env \<Rightarrow> nat \<Rightarrow> world \<Rightarrow> (status \<times> world) + (int \<times> world)" where
  "allocate cfg e stream_array_size w =
     (let BytesPerWord = real (sizeof_STREAM_TYPE cfg);
          nthreads = omp_get_num_threads e
      in case array_size_of stream_array_size nthreads of
           None \<Rightarrow> Inl (Undefined Int_conversion, w)
         | Some array_size \<Rightarrow>
             let w1 = w\<lparr>malloc_calls := malloc_calls w + 3 * nthreads,
                        heap :=
                          \<lparr>a_buf = map (\<lambda>tid. malloc e (sizeof_STREAM_TYPE cfg) array_size tid 0)
                                     [0..<nthreads],
                           b_buf = map (\<lambda>tid. malloc e (sizeof_STREAM_TYPE cfg) array_size tid 1)
                                     [0..<nthreads],
                           c_buf = map (\<lambda>tid. malloc e (sizeof_STREAM_TYPE cfg) array_size tid 2)
                                     [0..<nthreads]\<rparr>\<rparr>
             in Inr (array_size,
                  prints
                    [(''Memory per array (a,b,c) = %.1f MiB (%.1f GiB).\<newline>'',
                      [Dbl_arg (Finite (BytesPerWord * (real_of_int array_size / 1024 / 1024))),
                       Dbl_arg (Finite (BytesPerWord
                                  * (real_of_int array_size / 1024 / 1024 / 1024)))]),
                     (''Memory required per threads = %.1f MiB (%.1f GiB).\<newline>'',
                      [Dbl_arg (Finite ((3.0 * BytesPerWord)
                                  * (real_of_int array_size / 1024 / 1024))),
                       Dbl_arg (Finite ((3.0 * BytesPerWord)
                                  * (real_of_int array_size / 1024 / 1024 / 1024)))]),
                     (''Total memory required (%d threads) = %.1f MiB (%.1f GiB).\<newline>'',
                      [Int_arg (int nthreads),
                       Dbl_arg (Finite ((3.0 * BytesPerWord * real nthreads)
                                  * (real_of_int array_size / 1024 / 1024))),
                       Dbl_arg (Finite ((3.0 * BytesPerWord * real nthreads)
                                  * (real_of_int array_size / 1024 / 1024 / 1024)))]),
                     (HLINE, [])] w1))"

text \<open>Lines 204-217; \<open>None\<close> when \<open>checktick\<close> does not return.\<close>

definition calibrate :: "env \<Rightarrow> world \<Rightarrow> ((status \<times> world) + (int \<times> world)) option" where
  "calibrate e w =
     (case checktick (now e) (clock_reads w) of
        None \<Rightarrow> None
      | Some (r, n) \<Rightarrow>
          Some (let w1 = w\<lparr>clock_reads := n\<rparr>
                in case r of
                     Inl f \<Rightarrow> Inl (Undefined f, w1)
                   | Inr quantum \<Rightarrow>
                       if quantum \<ge> 1
                       then Inr (quantum,
                              prints
                                [(''Your clock granularity/precision appears to be %d microseconds.\<newline>'',
                                  [Int_arg quantum]),
                                 (HLINE, [])] w1)
                       else Inr (1,
                              prints
                                [(''Your clock granularity appears to be less than one microsecond.\<newline>'',
                                  []),
                                 (HLINE, [])] w1)))"

text \<open>Lines 219-231.\<close>

definition initialize :: "env \<Rightarrow> int \<Rightarrow> world \<Rightarrow> (status \<times> world) + world" where
  "initialize e array_size w =
     and_then (omp_parallel_for e init_body array_size (printf ''Initialize arrays...\<newline>'' [] w))
       (\<lambda>w1. Inr (printf HLINE [] w1))"

text \<open>Lines 233-254: the loop that doubles \<open>a\<close> is timed to estimate a test's duration.\<close>

definition estimate :: "env \<Rightarrow> int \<Rightarrow> int \<Rightarrow> world \<Rightarrow> (status \<times> world) + world" where
  "estimate e array_size quantum w =
     (let (t0, w1) = read_clock e w
      in and_then (omp_parallel_for e double_body array_size w1) (\<lambda>w2.
           let (t1, w3) = read_clock e w2;
               t = 1000000 * (t1 - t0)
           in case double_to_int t of
                None \<Rightarrow> Inl (Undefined Int_conversion, w3)
              | Some us \<Rightarrow>
                  Inr (prints
                         [(''Each test below will take on the order of %d microseconds.\<newline>'',
                           [Int_arg us]),
                          (''Increase the size of the arrays if this shows that\<newline>'', []),
                          (''you are not getting at least %d microseconds per test.\<newline>'',
                           [Int_arg (quantum * 100)]),
                          (HLINE, []),
                          (''WARNING -- The above is only a rough guideline.\<newline>'', []),
                          (''For best results, please be sure you know the\<newline>'', []),
                          (''precision of your system timer.\<newline>'', []),
                          (HLINE, [])] w3)))"

text \<open>
  Lines 259-266 and their three siblings: a kernel between two clock samples; the
  elapsed time is appended to the column of the present iteration.
\<close>

definition timed_kernel ::
  "env \<Rightarrow> (nat \<Rightarrow> int \<Rightarrow> arrays \<Rightarrow> fault + arrays) \<Rightarrow> int \<Rightarrow> world \<times> real list
     \<Rightarrow> (status \<times> world) + (world \<times> real list)" where
  "timed_kernel e body array_size st =
     (case st of (w, col) \<Rightarrow>
        let (t0, w1) = read_clock e w
        in and_then (omp_parallel_for e body array_size w1) (\<lambda>w2.
             let (t1, w3) = read_clock e w2
             in Inr (w3, col @ [t1 - t0])))"

text \<open>Lines 259-293: one iteration of the loop over \<open>k\<close>: Copy, Scale, Add, Triad.\<close>

definition iteration ::
  "env \<Rightarrow> int \<Rightarrow> world \<Rightarrow> (status \<times> world) + (world \<times> real list)" where
  "iteration e array_size w =
     and_then (timed_kernel e copy_body array_size (w, []))
       (\<lambda>s1. and_then (timed_kernel e scale_body array_size s1)
          (\<lambda>s2. and_then (timed_kernel e add_body array_size s2)
             (\<lambda>s3. timed_kernel e triad_body array_size s3)))"

text \<open>
  Lines 256-294: the loop over \<open>k\<close>; the second argument counts the iterations that
  remain. Row \<open>j\<close> of the table is \<open>times[j]\<close>.
\<close>

fun timing_loop ::
  "env \<Rightarrow> int \<Rightarrow> nat \<Rightarrow> world \<times> real list list \<Rightarrow> (status \<times> world) + (world \<times> real list list)" where
  "timing_loop e array_size 0 st = Inr st"
| "timing_loop e array_size (Suc r) st =
     (case st of (w, times_tab) \<Rightarrow>
        and_then (iteration e array_size w) (\<lambda>(w', col).
          timing_loop e array_size r (w', map (\<lambda>(row, t). row @ [t]) (zip times_tab col))))"

text \<open>Lines 296-335.\<close>

definition report :: "config \<Rightarrow> env \<Rightarrow> int \<Rightarrow> real list list \<Rightarrow> world \<Rightarrow> world" where
  "report cfg e array_size times_tab w =
     (let st = statistics (NTIMES cfg) times_tab;
          bytes_tab = bytes (sizeof_STREAM_TYPE cfg) array_size (omp_get_num_threads e)
      in (prints
           ((''Function  Bandwidth (MB/s)  Avg time (s)  Min time (s)  Max time (s)\<newline>'', [])
            # map (\<lambda>i. (''%s%8.0f  %16.6f  %13.6f  %12.6f\<newline>'',
                         [Str_arg (label ! i),
                          Dbl_arg (bandwidth bytes_tab (mintime_of st) i),
                          Dbl_arg (Finite (avgtime_of st ! i)),
                          Dbl_arg (Finite (mintime_of st ! i)),
                          Dbl_arg (Finite (maxtime_of st ! i))])) [0..<4]
            @ [(HLINE, [])]) w)
         \<lparr>var_i := 4\<rparr>)"

subsection \<open>main\<close>

text \<open>
  The run up to line 217, just before the initialization: \<open>None\<close> when the calibration
  never returns, \<open>Inl\<close> when the run has ended, otherwise \<open>array_size\<close>, \<open>quantum\<close>
  and the state.
\<close>

definition startup ::
  "config \<Rightarrow> env \<Rightarrow> string list \<Rightarrow> ((status \<times> world) + (int \<times> int \<times> world)) option" where
  "startup cfg e argv =
     (case read_arguments cfg argv initial_world of
        Inl stop \<Rightarrow> Some (Inl stop)
      | Inr (stream_array_size, w0) \<Rightarrow>
          (case allocate cfg e stream_array_size (banner cfg e w0) of
             Inl stop \<Rightarrow> Some (Inl stop)
           | Inr (array_size, w1) \<Rightarrow>
               (case calibrate e w1 of
                  None \<Rightarrow> None
                | Some (Inl stop) \<Rightarrow> Some (Inl stop)
                | Some (Inr (quantum, w2)) \<Rightarrow> Some (Inr (array_size, quantum, w2)))))"

text \<open>
  The run up to line 254, just before the timing loop: as before, with \<open>array_size\<close>
  and the state with which the loop is entered.
\<close>

definition prologue ::
  "config \<Rightarrow> env \<Rightarrow> string list \<Rightarrow> ((status \<times> world) + (int \<times> world)) option" where
  "prologue cfg e argv =
     (case startup cfg e argv of
        None \<Rightarrow> None
      | Some (Inl stop) \<Rightarrow> Some (Inl stop)
      | Some (Inr (array_size, quantum, w2)) \<Rightarrow>
          Some (and_then (initialize e array_size w2) (\<lambda>w3.
                and_then (estimate e array_size quantum w3) (\<lambda>w4.
                  Inr (array_size, w4)))))"

text \<open>
  The whole of \<open>main\<close>: how the run ends (\<open>return\<close> with a status, or undefined
  behaviour) and the state at that point; \<open>None\<close> when it does not end.
\<close>

definition main :: "config \<Rightarrow> env \<Rightarrow> string list \<Rightarrow> (status \<times> world) option" where
  "main cfg e argv =
     (case prologue cfg e argv of
        None \<Rightarrow> None
      | Some (Inl stop) \<Rightarrow> Some stop
      | Some (Inr (array_size, w)) \<Rightarrow>
          Some (case timing_loop e array_size (nat (NTIMES cfg)) (w, replicate 4 []) of
                  Inl stop \<Rightarrow> stop
                | Inr (w', times_tab) \<Rightarrow> (Exit 0, report cfg e array_size times_tab w')))"

subsection \<open>Auxiliary notions for the statements\<close>

text \<open>The number of arrays a kernel reads and writes: Copy 2, Scale 2, Add 3, Triad 3.\<close>

definition traffic_factor :: "nat \<Rightarrow> nat" where
  "traffic_factor k = [2, 2, 3, 3] ! k"

text \<open>
  The sum, minimum and maximum of the entries 1 to \<open>n - 1\<close> of each row of a timing
  table.
\<close>

definition stats_upto :: "real list list \<Rightarrow> nat \<Rightarrow> stats" where
  "stats_upto tab n =
     (map (\<lambda>i. \<Sum>j = 1..<n. tab ! i ! j) [0..<4],
      map (\<lambda>i. Min ((\<lambda>j. tab ! i ! j) ` {1..<n})) [0..<4],
      map (\<lambda>i. Max ((\<lambda>j. tab ! i ! j) ` {1..<n})) [0..<4])"

text \<open>
  For the loops over the buffers: \<open>a\<close>, \<open>b\<close> and \<open>c\<close> hold, for each of \<open>T\<close>
  threads, a buffer of \<open>N\<close> elements; the element \<open>j\<close> of thread \<open>t\<close> in one of the
  three arrays, and the array with that element replaced.
\<close>

definition well_formed :: "nat \<Rightarrow> nat \<Rightarrow> arrays \<Rightarrow> bool" where
  "well_formed T N m \<longleftrightarrow>
     length (a_buf m) = T \<and> length (b_buf m) = T \<and> length (c_buf m) = T \<and>
     (\<forall>t < T. \<forall>p \<in> {a_buf m, b_buf m, c_buf m}. \<exists>xs. p ! t = Some xs \<and> length xs = N)"

definition elem :: "buffer list \<Rightarrow> nat \<Rightarrow> nat \<Rightarrow> real" where
  "elem p t j = the (p ! t) ! j"

definition put :: "buffer list \<Rightarrow> nat \<Rightarrow> nat \<Rightarrow> real \<Rightarrow> buffer list" where
  "put p t j v = p[t := Some ((the (p ! t))[j := v])]"

text \<open>
  The buffers at the end of the first iteration of the timing loop, when the run gets
  that far.
\<close>

definition heap_after_first_iteration :: "config \<Rightarrow> env \<Rightarrow> string list \<Rightarrow> arrays option" where
  "heap_after_first_iteration cfg e argv =
     (case prologue cfg e argv of
        Some (Inr (array_size, w)) \<Rightarrow>
          (case iteration e array_size w of
             Inr (w', col) \<Rightarrow> Some (heap w')
           | Inl stop \<Rightarrow> None)
      | _ \<Rightarrow> None)"

text \<open>
  What can be observed of a state without looking at the buffers, and the same for the
  result of the run up to the initialization.
\<close>

definition visible :: "world \<Rightarrow> (string \<times> parg list) list \<times> nat \<times> nat \<times> nat" where
  "visible w = (stdout w, clock_reads w, regions_run w, malloc_calls w)"

definition startup_visible ::
  "config \<Rightarrow> env \<Rightarrow> string list
     \<Rightarrow> ((status \<times> (string \<times> parg list) list \<times> nat \<times> nat \<times> nat)
          + (int \<times> int \<times> (string \<times> parg list) list \<times> nat \<times> nat \<times> nat)) option" where
  "startup_visible cfg e argv =
     map_option (map_sum (map_prod id visible) (map_prod id (map_prod id visible)))
       (startup cfg e argv)"







subsection \<open>An example environment\<close>

text \<open>
  A clock that advances one microsecond per sample, a team of two threads, every
  allocation granted, and threads that run their loops one after the other.
\<close>

definition example_env :: env where
  "example_env =
     \<lparr>clock_gettime = (\<lambda>n. (0, 1000 * int n)),
      omp_get_num_threads = 2,
      sysconf_nprocessors = 2,
      sched_getcpu = (\<lambda>tid. int tid),
      malloc_ok = (\<lambda>tid which. True),
      fresh_contents = (\<lambda>tid which j. 0),
      schedule = (\<lambda>r. [])\<rparr>"

text \<open>The same environment, except that the allocation of \<open>b\<close> fails for thread 1.\<close>

definition failing_env :: env where
  "failing_env = example_env\<lparr>malloc_ok := (\<lambda>tid which. \<not> (tid = 1 \<and> which = 1))\<rparr>"

text \<open>
  The same environment, except that in the third parallel loop (the first Copy) thread
  1 executes \<open>i = 0\<close> and thread 0 then runs through its whole loop before thread 1
  takes its next step.
\<close>

definition racing_env :: env where
  "racing_env = example_env\<lparr>schedule := (\<lambda>r. if r = 2 then [1, 0, 0, 0, 0] else [])\<rparr>"

section \<open>Properties\<close>

subsection \<open>Evaluating strtoul\<close>

lemma strtoul_evals:
  "strtoul ''abc'' = (0, ''abc'')"
  "strtoul ''0'' = (0, [])"
  "strtoul ''-0'' = (0, [])"
  "strtoul ''-5'' = (18446744073709551611, [])"
  "strtoul ''8'' = (8, [])"
  by (simp_all add: strtoul_def isdigit_def digit_val_def isspace_def ULONG_MAX_def)

subsection \<open>How a run can end\<close>

lemma read_arguments_many:
  "2 < length argv \<Longrightarrow> read_arguments cfg argv w = Inr (STREAM_ARRAY_SIZE cfg mod 2 ^ 64, w)"
  by (simp add: read_arguments_def)

lemma read_arguments_none:
  "read_arguments cfg [prog] w = Inr (STREAM_ARRAY_SIZE cfg mod 2 ^ 64, w)"
  by (simp add: read_arguments_def)

lemma read_arguments_error:
  assumes "read_arguments cfg argv w = Inl (Exit c, w')"
  shows "length argv = 2 \<and> c = - 1"
proof -
  have "length argv \<noteq> 1" "\<not> 2 < length argv" "length argv \<noteq> 0" "c = - 1"
    using assms by (auto simp: read_arguments_def Let_def split: if_splits)
  then show ?thesis by arith
qed

lemma main_error_exit:
  assumes "fst (strtoul arg) = 0"
  shows "main cfg e [prog, arg] =
           Some (Exit (- 1),
                 \<lparr>stdout = [(''[ERROR] The input value is invalid!'', [])],
                  clock_reads = 0, regions_run = 0, malloc_calls = 0, var_i = 0,
                  heap = \<lparr>a_buf = [], b_buf = [], c_buf = []\<rparr>\<rparr>)"
  using assms
  by (simp add: main_def prologue_def startup_def read_arguments_def initial_world_def printf_def)

text \<open>Past the argument check, a run that stops early stops in undefined behaviour.\<close>

lemma omp_parallel_for_stop:
  "omp_parallel_for e body n w = Inl (st, w') \<Longrightarrow> \<exists>f. st = Undefined f"
  by (auto simp: omp_parallel_for_def Let_def split: option.splits)

lemma timed_kernel_stop:
  "timed_kernel e body n s = Inl (st, w') \<Longrightarrow> \<exists>f. st = Undefined f"
  by (auto simp: timed_kernel_def and_then_def read_clock_def Let_def
      split: prod.splits sum.splits dest: omp_parallel_for_stop)

lemma iteration_stop:
  "iteration e n w = Inl (st, w') \<Longrightarrow> \<exists>f. st = Undefined f"
  by (auto simp: iteration_def and_then_def split: sum.splits dest: timed_kernel_stop)

lemma timing_loop_stop:
  "timing_loop e n r s = Inl (st, w') \<Longrightarrow> \<exists>f. st = Undefined f"
proof (induction r arbitrary: s)
  case 0
  then show ?case by simp
next
  case (Suc r)
  then show ?case
    by (auto simp: and_then_def split: prod.splits sum.splits dest: iteration_stop)
qed

lemma allocate_stop:
  "allocate cfg e n w = Inl (st, w') \<Longrightarrow> \<exists>f. st = Undefined f"
  by (auto simp: allocate_def Let_def split: option.splits)

lemma calibrate_stop:
  "calibrate e w = Some (Inl (st, w')) \<Longrightarrow> \<exists>f. st = Undefined f"
  by (auto simp: calibrate_def Let_def split: option.splits sum.splits if_splits)

lemma initialize_stop:
  "initialize e n w = Inl (st, w') \<Longrightarrow> \<exists>f. st = Undefined f"
  by (auto simp: initialize_def and_then_def split: sum.splits dest: omp_parallel_for_stop)

lemma estimate_stop:
  "estimate e n q w = Inl (st, w') \<Longrightarrow> \<exists>f. st = Undefined f"
  by (auto simp: estimate_def and_then_def read_clock_def Let_def
      split: sum.splits option.splits prod.splits dest: omp_parallel_for_stop)

lemma prologue_stop:
  assumes "prologue cfg e argv = Some (Inl (Exit c, w'))"
  shows "length argv = 2 \<and> c = - 1"
proof (cases "read_arguments cfg argv initial_world")
  case (Inl stop)
  with assms show ?thesis
    by (auto simp: prologue_def startup_def dest: read_arguments_error)
next
  case (Inr p)
  with assms show ?thesis
    by (auto simp: prologue_def startup_def and_then_def
        split: sum.splits option.splits prod.splits
        dest: allocate_stop calibrate_stop initialize_stop estimate_stop)
qed

lemma main_exit:
  assumes "main cfg e argv = Some (Exit c, w')"
  shows "c = 0 \<or> (length argv = 2 \<and> c = - 1)"
  using assms
  by (auto simp: main_def split: option.splits sum.splits prod.splits
      dest: prologue_stop timing_loop_stop)

subsection \<open>Invalid input\<close>

text \<open>
  Claim C7. When the program is run with exactly one argument and \<open>strtoul\<close> reads it
  as 0 (as it does for an argument that does not start with a number), the run prints
  the error message and nothing else, returns the nonzero status -1, and has neither
  called \<open>malloc\<close>, nor run a loop over the buffers, nor read the clock.
\<close>

theorem zero_argument_rejected:
  assumes "fst (strtoul arg) = 0"
  shows "main cfg e [prog, arg] =
           Some (Exit (- 1),
                 \<lparr>stdout = [(''[ERROR] The input value is invalid!'', [])],
                  clock_reads = 0, regions_run = 0, malloc_calls = 0, var_i = 0,
                  heap = \<lparr>a_buf = [], b_buf = [], c_buf = []\<rparr>\<rparr>)
         \<and> (- 1 :: int) \<noteq> 0"
  using main_error_exit [OF assms] by simp

theorem zero_argument_rejected_witness:
  "fst (strtoul ''abc'') = 0 \<and>
   main default_config example_env [''stream'', ''abc''] =
     Some (Exit (- 1),
           \<lparr>stdout = [(''[ERROR] The input value is invalid!'', [])],
            clock_reads = 0, regions_run = 0, malloc_calls = 0, var_i = 0,
            heap = \<lparr>a_buf = [], b_buf = [], c_buf = []\<rparr>\<rparr>)"
  using zero_argument_rejected [of "''abc''" default_config example_env "''stream''"]
  by (simp add: strtoul_evals)

text \<open>
  Claim C10. With two or more arguments after the program name, the argument check
  takes the compiled-in \<open>STREAM_ARRAY_SIZE\<close>, prints nothing, and the whole run is the
  run without arguments. A run that returns a nonzero status was given exactly one
  argument.
\<close>

theorem extra_arguments_ignored:
  "(2 < length argv \<longrightarrow>
      read_arguments cfg argv w = Inr (STREAM_ARRAY_SIZE cfg mod 2 ^ 64, w) \<and>
      main cfg e argv = main cfg e [hd argv]) \<and>
   (\<forall>c w'. main cfg e argv = Some (Exit c, w') \<and> c \<noteq> 0 \<longrightarrow> length argv = 2)"
  by (auto simp: main_def prologue_def startup_def read_arguments_many read_arguments_none
      dest: main_exit [unfolded main_def prologue_def startup_def])

theorem extra_arguments_ignored_witness:
  "2 < length [''stream'', ''0'', ''abc''] \<and>
   read_arguments default_config [''stream'', ''0'', ''abc''] initial_world =
     Inr (20000000, initial_world) \<and>
   main default_config example_env [''stream'', ''0'', ''abc''] =
     main default_config example_env [''stream''] \<and>
   (\<exists>w'. main default_config example_env [''stream'', ''0''] = Some (Exit (- 1), w')) \<and>
   length [''stream'', ''0''] = 2"
  using extra_arguments_ignored
          [of "[''stream'', ''0'', ''abc'']" default_config initial_world example_env]
        extra_arguments_ignored
          [of "[''stream'', ''0'']" default_config initial_world example_env]
        main_error_exit [of "''0''" default_config example_env "''stream''"]
  by (simp add: strtoul_evals STREAM_ARRAY_SIZE_def default_config_def)

text \<open>
  Claim C9 as stated fails: the argument \<open>-0\<close> starts with a minus sign followed by a
  digit, is read as 0 and takes the error path.
\<close>

theorem minus_zero_counterexample:
  "fst (strtoul ''-0'') = 0 \<and>
   main default_config example_env [''stream'', ''-0''] =
     Some (Exit (- 1),
           \<lparr>stdout = [(''[ERROR] The input value is invalid!'', [])],
            clock_reads = 0, regions_run = 0, malloc_calls = 0, var_i = 0,
            heap = \<lparr>a_buf = [], b_buf = [], c_buf = []\<rparr>\<rparr>)"
  using main_error_exit [of "''-0''" default_config example_env "''stream''"]
  by (simp add: strtoul_evals)

lemma read_digits_all:
  assumes "list_all isdigit ds" "rest = [] \<or> \<not> isdigit (hd rest)"
  shows "read_digits acc (ds @ rest) = (foldl (\<lambda>acc ch. 10 * acc + digit_val ch) acc ds, rest)"
  using assms
proof (induction ds arbitrary: acc)
  case Nil
  then show ?case by (cases rest) auto
next
  case (Cons d ds)
  then show ?case by simp
qed

lemma strtoul_minus:
  assumes "ds \<noteq> []" "list_all isdigit ds" "rest = [] \<or> \<not> isdigit (hd rest)"
  shows "fst (strtoul (CHR ''-'' # ds @ rest)) =
           (if decimal_value ds > ULONG_MAX then ULONG_MAX
            else (2 ^ 64 - decimal_value ds) mod 2 ^ 64)"
proof -
  have "isdigit (hd ds)" using assms by (cases ds) auto
  then show ?thesis
    using assms
    by (simp add: strtoul_def isspace_def read_digits_all decimal_value_def Let_def)
qed

text \<open>
  Claim C9, amended. For an argument that is a minus sign, a nonempty run of decimal
  digits and then no further digit: when the digits denote 0 the error path is taken;
  otherwise the argument is accepted without a message, as \<open>2 ^ 64\<close> minus the
  denoted number when that number is at most \<open>ULONG_MAX\<close> and as \<open>ULONG_MAX\<close> when it
  is larger, in both cases a value of at least 1.
\<close>

theorem minus_sign_arguments:
  assumes "ds \<noteq> []" "list_all isdigit ds" "rest = [] \<or> \<not> isdigit (hd rest)"
  shows "read_arguments cfg [prog, CHR ''-'' # ds @ rest] w =
           (if decimal_value ds = 0
            then Inl (Exit (- 1), printf ''[ERROR] The input value is invalid!'' [] w)
            else if decimal_value ds \<le> ULONG_MAX
            then Inr (2 ^ 64 - decimal_value ds, w)
            else Inr (ULONG_MAX, w))
    \<and> (decimal_value ds \<noteq> 0 \<longrightarrow>
          (1::nat) \<le> (if decimal_value ds \<le> ULONG_MAX then 2 ^ 64 - decimal_value ds else ULONG_MAX))"
  using strtoul_minus [OF assms]
  by (auto simp: read_arguments_def Let_def ULONG_MAX_def)

theorem minus_sign_arguments_witness:
  "''5'' \<noteq> [] \<and> list_all isdigit ''5'' \<and> ([] = [] \<or> \<not> isdigit (hd []))
   \<and> read_arguments default_config [''stream'', ''-5''] initial_world
       = Inr (18446744073709551611, initial_world)
   \<and> decimal_value ''5'' \<noteq> 0"
  using minus_sign_arguments [of "''5''" "[]" default_config "''stream''" initial_world]
  by (simp add: isdigit_def decimal_value_def digit_val_def ULONG_MAX_def)

subsection \<open>Rounding to double\<close>

lemma bit_length_bounds:
  "0 < n \<Longrightarrow> 2 ^ (bit_length n - 1) \<le> n \<and> n < 2 ^ bit_length n"
proof (induction n rule: bit_length.induct)
  case (1 n)
  show ?case
  proof (cases "n div 2 = 0")
    case True
    with "1.prems" have "n = 1" by (simp add: div_eq_0_iff) 
    then show ?thesis by (simp add: bit_length.simps)
  next
    case False
    then have pos: "0 < n div 2" by simp
    from "1.IH" [OF _ pos] "1.prems"
    have ih: "2 ^ (bit_length (n div 2) - 1) \<le> n div 2" "n div 2 < 2 ^ bit_length (n div 2)"
      by auto
    have bl: "bit_length n = Suc (bit_length (n div 2))"
      using "1.prems" by (subst bit_length.simps) simp
    have "0 < bit_length (n div 2)"
      using pos by (subst bit_length.simps) simp
    then have "(2::nat) ^ bit_length (n div 2) = 2 * 2 ^ (bit_length (n div 2) - 1)"
      by (cases "bit_length (n div 2)") auto
    with ih show ?thesis unfolding bl by simp linarith
  qed
qed

lemma exponent_bounds:
  assumes "1 \<le> x"
  shows "0 \<le> exponent x" "2 ^ nat (exponent x) \<le> x" "x < 2 ^ (nat (exponent x) + 1)"
proof -
  define n where "n = nat \<lfloor>x\<rfloor>"
  define m where "m = bit_length n"
  have n: "0 < n" "real n \<le> x" "x < real n + 1"
    using assms by (auto simp: n_def le_floor_iff)
  from bit_length_bounds [OF n(1)]
  have b: "2 ^ (m - 1) \<le> n" "n < 2 ^ m" by (auto simp: m_def)
  have bl: "0 < m"
    unfolding m_def using n(1) by (subst bit_length.simps) simp
  have e: "exponent x = int m - 1"
    using assms by (simp add: exponent_def m_def n_def)
  then show "0 \<le> exponent x" using bl by simp
  have ne: "nat (exponent x) = m - 1" using e bl by simp
  have "real (2 ^ (m - 1)) \<le> real n" using b(1) by (rule of_nat_mono)
  then have "(2::real) ^ (m - 1) \<le> real n" by simp
  then have "(2::real) ^ (m - 1) \<le> x" using n(2) by linarith
  then show "2 ^ nat (exponent x) \<le> x" unfolding ne .
  have "n + 1 \<le> 2 ^ m" using b(2) by simp
  then have "real (n + 1) \<le> real (2 ^ m)" by (rule of_nat_mono)
  then have "real n + 1 \<le> (2::real) ^ m" by simp
  then have "x < (2::real) ^ m" using n(3) by linarith
  moreover have "nat (exponent x) + 1 = m" using ne bl by simp
  ultimately show "x < 2 ^ (nat (exponent x) + 1)" by simp
qed

lemma round_half_even_of_int [simp]: "round_half_even (of_int z) = z"
  by (simp add: round_half_even_def)

lemma round_half_even_bounds:
  "real_of_int \<lfloor>y\<rfloor> \<le> real_of_int (round_half_even y)"
  "real_of_int (round_half_even y) \<le> y + 1 / 2"
  by (auto simp: round_half_even_def Let_def) linarith+

lemma to_double_of_nat:
  assumes "n < 2 ^ 53"
  shows "to_double (real n) = real n"
proof (cases "n = 0")
  case True
  then show ?thesis by (simp add: to_double_def)
next
  case False
  then have x1: "1 \<le> real n" by simp
  note eb = exponent_bounds [OF x1]
  have "(2::real) ^ nat (exponent (real n)) < 2 ^ 53"
    using eb(2) assms
  proof -
    have "real n < real (2 ^ 53)" using assms by (simp only: of_nat_less_iff)
    then have "real n < (2::real) ^ 53" by simp
    with eb(2) show ?thesis by linarith
  qed
  then have "nat (exponent (real n)) < 53"
    using power_less_imp_less_exp [of "2::real" "nat (exponent (real n))" 53] by fastforce
  then have le: "exponent (real n) \<le> 52" by linarith
  have "real n * 2 ^ nat (52 - exponent (real n)) = of_int (int n * 2 ^ nat (52 - exponent (real n)))"
    by simp
  then have "round_half_even (real n * 2 ^ nat (52 - exponent (real n))) = int n * 2 ^ nat (52 - exponent (real n))"
    by (simp only: round_half_even_of_int)
  then show ?thesis using False le by (simp add: to_double_def Let_def)
qed


lemma floor_to_double_quotient:
  assumes b: "0 < b" and ab: "b \<le> a" and a: "a < 2 ^ 53"
  shows "\<lfloor>to_double (real a / real b)\<rfloor> = int (a div b)"
proof -
  define q where "q = real a / real b"
  define k where "k = a div b"
  define e where "e = nat (exponent q)"
  define s where "s = (2::real) ^ (52 - e)"
  have rb: "0 < real b" using b by simp
  have q1: "1 \<le> q" using b ab by (simp add: q_def)
  note eb = exponent_bounds [OF q1]
  have ra: "real a < 2 ^ 53"
  proof -
    have "real a < real (2 ^ 53)" using a by (simp only: of_nat_less_iff)
    then show ?thesis by simp
  qed
  have qa: "q \<le> real a"
    unfolding q_def using rb b by (simp add: divide_le_eq mult_le_cancel_left1 del: of_nat_0_less_iff)
  have "(2::real) ^ e < 2 ^ 53" using eb(2) qa ra unfolding e_def by linarith
  then have e53: "e < 53"
    using power_less_imp_less_exp [of "2::real" e 53] by fastforce
  then have le: "exponent q \<le> 52" unfolding e_def by linarith
  have td: "to_double q = of_int (round_half_even (q * s)) / s"
    using q1 le eb(1) by (simp add: to_double_def Let_def s_def e_def nat_diff_distrib)
  define S where "S = (2::int) ^ (52 - e)"
  have sS: "s = of_int S" by (simp add: s_def S_def)
  have s0: "0 < s" by (simp add: s_def)
  define r where "r = round_half_even (q * s)"
  have kb: "k * b \<le> a" "a + 1 \<le> (k + 1) * b"
    using b by (auto simp: k_def) (metis Suc_leI dividend_less_div_times)
  have "real (k * b) \<le> real a" using kb(1) by (rule of_nat_mono)
  then have kq: "real k \<le> q"
    using rb by (simp add: q_def le_divide_eq del: of_nat_0_less_iff)
  have "real (a + 1) \<le> real ((k + 1) * b)" using kb(2) by (rule of_nat_mono)
  then have "real a + 1 \<le> (real k + 1) * real b" by (simp add: algebra_simps)
  then have "(real a + 1) / real b \<le> real k + 1"
    using rb by (simp add: divide_le_eq del: of_nat_0_less_iff)
  then have qk: "q + 1 / real b \<le> real k + 1"
    by (simp add: q_def add_divide_distrib)
  have "(2::real) ^ e * real b \<le> real a"
    using eb(2) rb unfolding e_def q_def by (simp add: le_divide_eq del: of_nat_0_less_iff)
  moreover have "(2::real) ^ 53 = 2 ^ e * (2 * s)"
  proof -
    have "(53::nat) = e + (1 + (52 - e))" using e53 by simp
    then have "(2::real) ^ 53 = 2 ^ (e + (1 + (52 - e)))" by simp
    then show ?thesis unfolding s_def power_add by simp
  qed
  ultimately have "(2::real) ^ e * real b < 2 ^ e * (2 * s)" using ra by linarith
  then have b2s: "real b < 2 * s" by simp
  then have half: "1 / 2 < s / real b"
    using rb by (simp add: less_divide_eq del: of_nat_0_less_iff)
  have kS: "real k * s = of_int (int k * S)" by (simp add: sS)
  have "real k * s \<le> q * s" using kq s0 by simp
  then have "of_int (int k * S) \<le> q * s" unfolding kS .
  then have "int k * S \<le> \<lfloor>q * s\<rfloor>" by (simp only: le_floor_iff)
  then have "real_of_int (int k * S) \<le> real_of_int \<lfloor>q * s\<rfloor>" by (simp only: of_int_le_iff)
  also have "\<dots> \<le> real_of_int r" unfolding r_def by (rule round_half_even_bounds)
  finally have lower: "real k * s \<le> real_of_int r" unfolding kS .
  have "real_of_int r \<le> q * s + 1 / 2" unfolding r_def by (rule round_half_even_bounds)
  moreover have "q * s + s / real b \<le> (real k + 1) * s"
    using mult_right_mono [OF qk less_imp_le [OF s0]] by (simp add: algebra_simps)
  ultimately have upper: "real_of_int r < (real k + 1) * s" using half by linarith
  have "real k \<le> real_of_int r / s" using lower s0 by (simp add: le_divide_eq)
  moreover have "real_of_int r / s < real k + 1" using upper s0 by (simp add: divide_less_eq)
  ultimately have "\<lfloor>real_of_int r / s\<rfloor> = int k"
    by (intro floor_unique) simp_all
  then show ?thesis using td by (simp add: r_def q_def k_def)
qed

subsection \<open>The size of the buffers\<close>

text \<open>
  Claim C3 as stated fails: for \<open>2 ^ 31\<close> elements on one thread the quotient is not an
  \<open>int\<close> and the cast is undefined; for \<open>2 ^ 54 - 1\<close> elements on \<open>2 ^ 24\<close> threads
  the conversion of the element count to \<open>double\<close> rounds up and \<open>array_size\<close> is one
  more than the integer quotient.
\<close>

theorem array_size_counterexample:
  "array_size_of 2147483648 1 \<noteq> Some (int (2147483648 div 1))
   \<and> array_size_of 18014398509481983 16777216 \<noteq> Some (int (18014398509481983 div 16777216))"
  by (simp add: array_size_of_def to_double_def exponent_def bit_length.simps round_half_even_def
      Let_def double_to_int_def trunc_def INT_MAX_def INT_MIN_def)

lemma array_size_of_exact:
  assumes "1 \<le> nthreads" "nthreads \<le> total_elements" "total_elements < 2 ^ 53"
    and "int (total_elements div nthreads) \<le> INT_MAX"
  shows "array_size_of total_elements nthreads = Some (int (total_elements div nthreads))"
proof -
  have n53: "nthreads < 2 ^ 53" using assms by linarith
  have fl: "\<lfloor>to_double (real total_elements / real nthreads)\<rfloor> = int (total_elements div nthreads)"
    using assms by (intro floor_to_double_quotient) auto
  have "0 \<le> \<lfloor>to_double (real total_elements / real nthreads)\<rfloor>"
    using fl by simp
  then have "0 \<le> to_double (real total_elements / real nthreads)"
    by (simp only: zero_le_floor)
  then show ?thesis
    using assms fl
    by (simp add: array_size_of_def to_double_of_nat n53 double_to_int_def trunc_def INT_MIN_def)
qed

lemma malloc_length:
  assumes "0 \<le> n" "n \<le> INT_MAX" "0 < elem_size" "elem_size \<le> 16"
  shows "malloc e elem_size n tid which =
           (if malloc_ok e tid which
            then Some (map (fresh_contents e tid which) [0..<nat n]) else None)"
proof -
  have "n < 2 ^ 64" using assms by (simp add: INT_MAX_def)
  then have ts: "to_size_t n = nat n" using assms by (simp add: to_size_t_def)
  have "elem_size * nat n \<le> 16 * nat n" using assms by simp
  also have "\<dots> < 2 ^ 64" using assms by (simp add: INT_MAX_def)
  finally have "(elem_size * nat n) mod 2 ^ 64 = elem_size * nat n" by simp
  then show ?thesis using assms by (simp add: malloc_def ts)
qed

lemma stdout_prints: "stdout (prints ps w) = stdout w @ ps"
  by (induction ps arbitrary: w) (auto simp: prints_def printf_def)

lemma heap_prints: "heap (prints ps w) = heap w"
  by (induction ps arbitrary: w) (auto simp: prints_def printf_def)

text \<open>
  Claim C3, amended. When the team has at least one thread, the number of elements is at
  least the number of threads and below \<open>2 ^ 53\<close>, and the integer quotient is at most
  \<open>INT_MAX\<close>, then \<open>array_size\<close> is the integer quotient (the remainder is dropped),
  the allocation phase goes through, \<open>a\<close>, \<open>b\<close> and \<open>c\<close> have one entry per thread,
  and every buffer that \<open>malloc\<close> has granted holds exactly \<open>array_size\<close> elements
  (for an element size from 1 to 16 bytes).
\<close>

theorem array_size_floor_division:
  assumes "1 \<le> omp_get_num_threads e" "omp_get_num_threads e \<le> total_elements" "total_elements < 2 ^ 53"
    and "int (total_elements div omp_get_num_threads e) \<le> INT_MAX"
    and "0 < sizeof_STREAM_TYPE cfg" "sizeof_STREAM_TYPE cfg \<le> 16"
  shows "array_size_of total_elements (omp_get_num_threads e) = Some (int (total_elements div omp_get_num_threads e))
    \<and> (\<exists>w'. allocate cfg e total_elements w = Inr (int (total_elements div omp_get_num_threads e), w')
          \<and> (\<forall>tid < omp_get_num_threads e. \<forall>p \<in> {a_buf (heap w'), b_buf (heap w'), c_buf (heap w')}.
                length p = omp_get_num_threads e \<and>
                (case p ! tid of
                   None \<Rightarrow> True
                 | Some xs \<Rightarrow> length xs = total_elements div omp_get_num_threads e)))"
proof -
  let ?n = "int (total_elements div omp_get_num_threads e)"
  have a: "array_size_of total_elements (omp_get_num_threads e) = Some ?n"
    using assms by (intro array_size_of_exact)
  have m: "\<And>tid which. malloc e (sizeof_STREAM_TYPE cfg) ?n tid which =
           (if malloc_ok e tid which
            then Some (map (fresh_contents e tid which) [0..<nat ?n]) else None)"
    using assms by (intro malloc_length) auto
  show ?thesis
    by (auto simp: a allocate_def Let_def heap_prints m)
qed

theorem array_size_floor_division_witness:
  "1 \<le> omp_get_num_threads example_env \<and> omp_get_num_threads example_env \<le> 8
   \<and> (8::nat) < 2 ^ 53 \<and> int (8 div omp_get_num_threads example_env) \<le> INT_MAX
   \<and> 0 < sizeof_STREAM_TYPE default_config \<and> sizeof_STREAM_TYPE default_config \<le> 16
   \<and> array_size_of 8 (omp_get_num_threads example_env) = Some 4
   \<and> (\<exists>w'. allocate default_config example_env 8 initial_world = Inr (4, w')
          \<and> a_buf (heap w') = [Some [0, 0, 0, 0], Some [0, 0, 0, 0]])"
  using array_size_floor_division [of example_env 8 default_config initial_world]
  by (auto simp: example_env_def default_config_def INT_MAX_def allocate_def Let_def
      heap_prints malloc_def to_size_t_def upt_rec)

subsection \<open>The timing statistics\<close>

lemma upt_0_4: "[0..<4] = [0, 1, 2, 3]"
  by (simp add: upt_rec)

lemma MIN_macro_min: "MIN_macro x y = min x y"
  by (auto simp: MIN_macro_def min_def)

lemma MAX_macro_max: "MAX_macro x y = max x y"
  by (auto simp: MAX_macro_def max_def)

lemma stats_init_upto: "stats_init tab = stats_upto tab 2"
proof -
  have "{1..<2::nat} = {1}" by auto
  then show ?thesis
    by (simp add: stats_init_def stats_upto_def upt_0_4 numeral_eq_Suc)
qed

lemma stats_step_upto:
  assumes "2 \<le> n"
  shows "stats_step tab n (stats_upto tab n) = stats_upto tab (Suc n)"
proof -
  have ins: "{1..<Suc n} = insert n {1..<n}" using assms by auto
  have ne: "{1..<n} \<noteq> {}" using assms by auto
  have s: "\<And>f::nat \<Rightarrow> real. sum f {1..<Suc n} = sum f {1..<n} + f n"
    using assms by simp
  have mn: "\<And>f::nat \<Rightarrow> real. Min (f ` {1..<Suc n}) = min (Min (f ` {1..<n})) (f n)"
    unfolding ins using ne by (simp add: min.commute)
  have mx: "\<And>f::nat \<Rightarrow> real. Max (f ` {1..<Suc n}) = max (Max (f ` {1..<n})) (f n)"
    unfolding ins using ne by (simp add: max.commute)
  show ?thesis
    unfolding stats_step_def stats_upto_def s mn mx
    by (simp add: upt_0_4 MIN_macro_min MAX_macro_max)
qed

lemma stats_loop_upto:
  assumes "2 \<le> n"
  shows "fold (stats_step tab) [2..<n] (stats_init tab) = stats_upto tab n"
  using assms
proof (induction n rule: dec_induct)
  case base
  then show ?case by (simp add: stats_init_upto)
next
  case (step n)
  then show ?case by (simp add: stats_step_upto)
qed

lemma statistics_eq:
  assumes "2 \<le> ntimes"
  shows "statistics ntimes tab =
     (map (\<lambda>i. (\<Sum>j = 1..<nat ntimes. tab ! i ! j) / real_of_int (ntimes - 1)) [0..<4],
      map (\<lambda>i. Min ((\<lambda>j. tab ! i ! j) ` {1..<nat ntimes})) [0..<4],
      map (\<lambda>i. Max ((\<lambda>j. tab ! i ! j) ` {1..<nat ntimes})) [0..<4])"
proof -
  have "2 \<le> nat ntimes" using assms by simp
  then show ?thesis
    unfolding statistics_def
    by (simp add: stats_loop_upto) (simp add: stats_upto_def stats_final_def upt_0_4)
qed

lemma NTIMES_ge_2: "2 \<le> NTIMES cfg"
  by (simp add: NTIMES_def split: option.splits)


lemma upt_1_3: "{Suc 0..<3} = {Suc 0, 2}" by auto


subsection \<open>The reported bandwidth\<close>

text \<open>
  Claim C5 as stated fails: with 8-byte elements, \<open>array_size = 4\<close>, two threads and a
  best time of one second for Copy, 128 bytes are moved, and the number printed is not
  128 (bytes per second) but 128 / 1048576.
\<close>

theorem bandwidth_counterexample:
  "bandwidth (bytes 8 4 2) [1, 1, 1, 1] 0 \<noteq> Finite (bytes 8 4 2 ! 0 / [1, 1, 1, 1] ! 0)"
  by (simp add: bandwidth_def bytes_def bytes_entry_def to_size_t_def fdiv_def
      to_double_def exponent_def bit_length.simps round_half_even_def Let_def)

lemma bytes_entry_exact:
  assumes "0 \<le> n" "n \<le> INT_MAX" "factor * elem_size * nat n * nthreads < 2 ^ 53"
  shows "bytes_entry factor elem_size n nthreads = real (factor * elem_size * nat n * nthreads)"
proof -
  have "n < 2 ^ 64" using assms by (simp add: INT_MAX_def)
  then have ts: "to_size_t n = nat n" using assms by (simp add: to_size_t_def)
  have "factor * elem_size * nat n * nthreads < 2 ^ 64"
    using assms(3) by (rule less_trans) simp
  then have modeq: "(factor * elem_size * nat n * nthreads) mod 2 ^ 64
               = factor * elem_size * nat n * nthreads" by simp
  have "bytes_entry factor elem_size n nthreads
          = to_double (real ((factor * elem_size * nat n * nthreads) mod 2 ^ 64))"
    by (simp only: bytes_entry_def ts)
  also have "\<dots> = to_double (real (factor * elem_size * nat n * nthreads))"
    by (simp only: modeq)
  also have "\<dots> = real (factor * elem_size * nat n * nthreads)"
    by (rule to_double_of_nat [OF assms(3)])
  finally show ?thesis .
qed

lemma less_4_cases: "k < 4 \<Longrightarrow> k = 0 \<or> k = 1 \<or> k = 2 \<or> k = (3::nat)"
  by arith

lemma bytes_exact:
  assumes "k < 4" "0 \<le> n" "n \<le> INT_MAX" "3 * elem_size * nat n * nthreads < 2 ^ 53"
  shows "bytes elem_size n nthreads ! k = real (traffic_factor k * (nat n * nthreads) * elem_size)"
proof -
  have "2 * elem_size * nat n * nthreads \<le> 3 * elem_size * nat n * nthreads" by simp
  then have two: "2 * elem_size * nat n * nthreads < 2 ^ 53" using assms(4) by (rule le_less_trans)
  have eq: "\<And>f. f * elem_size * nat n * nthreads = f * (nat n * nthreads) * elem_size"
    by (simp add: ac_simps)
  have b2: "bytes_entry 2 elem_size n nthreads = real (2 * (nat n * nthreads) * elem_size)"
    using bytes_entry_exact [OF assms(2,3) two] by (simp only: eq)
  have b3: "bytes_entry 3 elem_size n nthreads = real (3 * (nat n * nthreads) * elem_size)"
    using bytes_entry_exact [OF assms(2,3,4)] by (simp only: eq)
  show ?thesis
  proof (cases "k < 2")
    case True
    then have "bytes elem_size n nthreads ! k = bytes_entry 2 elem_size n nthreads"
      and "traffic_factor k = 2"
      using less_4_cases [OF assms(1)] by (auto simp: bytes_def traffic_factor_def)
    then show ?thesis by (simp only: b2)
  next
    case False
    then have "bytes elem_size n nthreads ! k = bytes_entry 3 elem_size n nthreads"
      and "traffic_factor k = 3"
      using less_4_cases [OF assms(1)] by (auto simp: bytes_def traffic_factor_def)
    then show ?thesis by (simp only: b3)
  qed
qed

lemma report_line:
  assumes "k < 4"
  shows "stdout (report cfg e n tab w) ! (length (stdout w) + 1 + k) =
     (''%s%8.0f  %16.6f  %13.6f  %12.6f\<newline>'',
      [Str_arg (label ! k),
       Dbl_arg (bandwidth (bytes (sizeof_STREAM_TYPE cfg) n (omp_get_num_threads e))
                  (mintime_of (statistics (NTIMES cfg) tab)) k),
       Dbl_arg (Finite (avgtime_of (statistics (NTIMES cfg) tab) ! k)),
       Dbl_arg (Finite (mintime_of (statistics (NTIMES cfg) tab) ! k)),
       Dbl_arg (Finite (maxtime_of (statistics (NTIMES cfg) tab) ! k))])"
proof -
  have u: "[0..<4] = [0, 1, 2, 3]" by (simp add: upt_rec)
  show ?thesis
    using less_4_cases [OF assms]
    by (auto simp: report_def Let_def stdout_prints nth_append u)
qed

text \<open>
  Claim C5, amended. For every kernel \<open>k\<close>, with \<open>S = array_size * nthreads\<close> and \<open>E\<close>
  the element size, when \<open>3 * E * S\<close> is below \<open>2 ^ 53\<close>: \<open>bytes[k]\<close> is exactly
  \<open>2 * S * E\<close> for Copy and Scale and \<open>3 * S * E\<close> for Add and Triad, and, when
  \<open>mintime[k]\<close> is not 0, the bandwidth printed in the line of kernel \<open>k\<close> is
  \<open>bytes[k] / 1024 / 1024 / mintime[k]\<close>.
\<close>

theorem bandwidth_reported:
  assumes "k < 4" "0 \<le> array_size" "array_size \<le> INT_MAX"
    and "3 * sizeof_STREAM_TYPE cfg * nat array_size * omp_get_num_threads e < 2 ^ 53"
    and "mintime_of (statistics (NTIMES cfg) tab) ! k \<noteq> 0"
  shows "bytes (sizeof_STREAM_TYPE cfg) array_size (omp_get_num_threads e) ! k =
           real (traffic_factor k * (nat array_size * omp_get_num_threads e) * sizeof_STREAM_TYPE cfg)
    \<and> snd (stdout (report cfg e array_size tab w) ! (length (stdout w) + 1 + k)) ! 1 =
        Dbl_arg (Finite
          (real (traffic_factor k * (nat array_size * omp_get_num_threads e) * sizeof_STREAM_TYPE cfg)
             / 1024 / 1024 / (mintime_of (statistics (NTIMES cfg) tab) ! k)))"
proof -
  let ?B = "real (traffic_factor k * (nat array_size * omp_get_num_threads e) * sizeof_STREAM_TYPE cfg)"
  have b: "bytes (sizeof_STREAM_TYPE cfg) array_size (omp_get_num_threads e) ! k = ?B"
    by (rule bytes_exact [OF assms(1-4)])
  have "snd (stdout (report cfg e array_size tab w) ! (length (stdout w) + 1 + k)) ! 1 =
          Dbl_arg (bandwidth (bytes (sizeof_STREAM_TYPE cfg) array_size (omp_get_num_threads e))
                  (mintime_of (statistics (NTIMES cfg) tab)) k)"
    by (simp only: report_line [OF assms(1)]) simp
  also have "\<dots> = Dbl_arg (Finite (?B / 1024 / 1024 / (mintime_of (statistics (NTIMES cfg) tab) ! k)))"
    unfolding bandwidth_def fdiv_def b using assms(5) by (simp only: if_False)
  finally show ?thesis using b by (simp only: simp_thms)
qed

lemma stat_eval: "mintime_of (statistics 3 [[5, 1, 3], [5, 2, 2], [5, 1, 1], [9, 4, 6]]) ! 0 = 1"
  by (simp add: statistics_eq mintime_of_def upt_1_3 upt_0_4)

theorem bandwidth_reported_witness:
  "(0::nat) < 4 \<and> (0::int) \<le> 4 \<and> 4 \<le> INT_MAX
   \<and> 3 * sizeof_STREAM_TYPE default_config * nat 4 * omp_get_num_threads example_env < 2 ^ 53
   \<and> mintime_of (statistics (NTIMES (default_config\<lparr>NTIMES_D := Some 3\<rparr>))
                   [[5, 1, 3], [5, 2, 2], [5, 1, 1], [9, 4, 6]]) ! 0 \<noteq> 0
   \<and> bytes (sizeof_STREAM_TYPE default_config) 4 (omp_get_num_threads example_env) ! 0 = 128
   \<and> snd (stdout (report (default_config\<lparr>NTIMES_D := Some 3\<rparr>) example_env 4
                     [[5, 1, 3], [5, 2, 2], [5, 1, 1], [9, 4, 6]] initial_world) ! 1) ! 1
        = Dbl_arg (Finite (128 / 1048576))"
  using bandwidth_reported [of 0 4 "default_config\<lparr>NTIMES_D := Some 3\<rparr>" example_env
          "[[5, 1, 3], [5, 2, 2], [5, 1, 1], [9, 4, 6]]" initial_world]
  by (simp add: INT_MAX_def default_config_def example_env_def NTIMES_def stat_eval
      traffic_factor_def initial_world_def)

subsection \<open>The clock calibration\<close>









lemma collect_ticks_numeral:
  "collect_ticks (numeral k) clk n =
     (case spin clk (clk n) (Suc n) of
        None \<Rightarrow> None
      | Some (t2, n1) \<Rightarrow>
          (case collect_ticks (pred_numeral k) clk n1 of
             None \<Rightarrow> None
           | Some (ts, n2) \<Rightarrow> Some (t2 # ts, n2)))"
  by (simp add: numeral_eq_Suc)


lemma upt_1_20:
  "[1..<20] = [1, 2, 3, 4, 5, 6, 7, 8, 9, 10, 11, 12, 13, 14, 15, 16, 17, 18, 19]"
  by (simp add: upt_rec)




lemma example_clock_ticks:
  "collect_ticks M (now example_env) 0 =
    Some ([1 / 1000000, 3 / 1000000, 1 / 200000, 7 / 1000000, 9 / 1000000,
        11 / 1000000, 13 / 1000000, 3 / 200000, 17 / 1000000, 19 / 1000000,
        21 / 1000000, 23 / 1000000, 1 / 40000, 27 / 1000000, 29 / 1000000,
        31 / 1000000, 33 / 1000000, 7 / 200000, 37 / 1000000, 39 / 1000000], 40)"
  by (simp add: M_def collect_ticks_numeral spin.simps now_def example_env_def mysecond_def)

lemma example_clock_checktick: "checktick (now example_env) 0 = Some (Inr 2, 40)"
  unfolding checktick_def example_clock_ticks
  by (simp add: M_def upt_1_20 min_delta_def
      delta_step_def double_to_int_def trunc_def
      MIN_macro_def MAX_macro_def INT_MIN_def INT_MAX_def del: One_nat_def)





subsection \<open>The loops over the buffers\<close>

lemma upt_0_2: "[0..<2] = [0, 1]"
  by (simp add: upt_rec)

lemma replicate_2: "replicate 2 x = [x, x]"
  by (simp add: numeral_2_eq_2)

lemmas access_defs = and_then_def read_at_def write_at_def INT_MAX_def SCALAR_def

lemma init_region:
  "parallel_for init_body 4 2 [] i0
     \<lparr>a_buf = [Some [a0, a1, a2, a3], Some [a4, a5, a6, a7]],
      b_buf = [Some [b0, b1, b2, b3], Some [b4, b5, b6, b7]],
      c_buf = [Some [c0, c1, c2, c3], Some [c4, c5, c6, c7]]\<rparr>
   = \<lparr>shared_i = 4, pcs = [At_end, At_end],
      mem = \<lparr>a_buf = [Some [1, 1, 1, 1], Some [1, 1, 1, 1]],
              b_buf = [Some [2, 2, 2, 2], Some [2, 2, 2, 2]],
              c_buf = [Some [0, 0, 0, 0], Some [0, 0, 0, 0]]\<rparr>,
      team_fault = None\<rparr>"
  unfolding parallel_for_def Let_def upt_0_2 replicate_2
  by (simp add: run_thread.simps step_def init_body_def access_defs)

lemma double_region:
  "parallel_for double_body 4 2 [] i0
     \<lparr>a_buf = [Some [1, 1, 1, 1], Some [1, 1, 1, 1]],
      b_buf = [Some [2, 2, 2, 2], Some [2, 2, 2, 2]],
      c_buf = [Some [0, 0, 0, 0], Some [0, 0, 0, 0]]\<rparr>
   = \<lparr>shared_i = 4, pcs = [At_end, At_end],
      mem = \<lparr>a_buf = [Some [2, 2, 2, 2], Some [2, 2, 2, 2]],
              b_buf = [Some [2, 2, 2, 2], Some [2, 2, 2, 2]],
              c_buf = [Some [0, 0, 0, 0], Some [0, 0, 0, 0]]\<rparr>,
      team_fault = None\<rparr>"
  unfolding parallel_for_def Let_def upt_0_2 replicate_2
  by (simp add: run_thread.simps step_def double_body_def access_defs)

lemma copy_region:
  "parallel_for copy_body 4 2 [] i0
     \<lparr>a_buf = [Some [2, 2, 2, 2], Some [2, 2, 2, 2]],
      b_buf = [Some [2, 2, 2, 2], Some [2, 2, 2, 2]],
      c_buf = [Some [0, 0, 0, 0], Some [0, 0, 0, 0]]\<rparr>
   = \<lparr>shared_i = 4, pcs = [At_end, At_end],
      mem = \<lparr>a_buf = [Some [2, 2, 2, 2], Some [2, 2, 2, 2]],
              b_buf = [Some [2, 2, 2, 2], Some [2, 2, 2, 2]],
              c_buf = [Some [2, 2, 2, 2], Some [2, 2, 2, 2]]\<rparr>,
      team_fault = None\<rparr>"
  unfolding parallel_for_def Let_def upt_0_2 replicate_2
  by (simp add: run_thread.simps step_def copy_body_def access_defs)

lemma scale_region:
  "parallel_for scale_body 4 2 [] i0
     \<lparr>a_buf = [Some [2, 2, 2, 2], Some [2, 2, 2, 2]],
      b_buf = [Some [2, 2, 2, 2], Some [2, 2, 2, 2]],
      c_buf = [Some [2, 2, 2, 2], Some [2, 2, 2, 2]]\<rparr>
   = \<lparr>shared_i = 4, pcs = [At_end, At_end],
      mem = \<lparr>a_buf = [Some [2, 2, 2, 2], Some [2, 2, 2, 2]],
              b_buf = [Some [6, 6, 6, 6], Some [6, 6, 6, 6]],
              c_buf = [Some [2, 2, 2, 2], Some [2, 2, 2, 2]]\<rparr>,
      team_fault = None\<rparr>"
  unfolding parallel_for_def Let_def upt_0_2 replicate_2
  by (simp add: run_thread.simps step_def scale_body_def access_defs)

lemma add_region:
  "parallel_for add_body 4 2 [] i0
     \<lparr>a_buf = [Some [2, 2, 2, 2], Some [2, 2, 2, 2]],
      b_buf = [Some [6, 6, 6, 6], Some [6, 6, 6, 6]],
      c_buf = [Some [2, 2, 2, 2], Some [2, 2, 2, 2]]\<rparr>
   = \<lparr>shared_i = 4, pcs = [At_end, At_end],
      mem = \<lparr>a_buf = [Some [2, 2, 2, 2], Some [2, 2, 2, 2]],
              b_buf = [Some [6, 6, 6, 6], Some [6, 6, 6, 6]],
              c_buf = [Some [8, 8, 8, 8], Some [8, 8, 8, 8]]\<rparr>,
      team_fault = None\<rparr>"
  unfolding parallel_for_def Let_def upt_0_2 replicate_2
  by (simp add: run_thread.simps step_def add_body_def access_defs)

lemma triad_region:
  "parallel_for triad_body 4 2 [] i0
     \<lparr>a_buf = [Some [2, 2, 2, 2], Some [2, 2, 2, 2]],
      b_buf = [Some [6, 6, 6, 6], Some [6, 6, 6, 6]],
      c_buf = [Some [8, 8, 8, 8], Some [8, 8, 8, 8]]\<rparr>
   = \<lparr>shared_i = 4, pcs = [At_end, At_end],
      mem = \<lparr>a_buf = [Some [30, 30, 30, 30], Some [30, 30, 30, 30]],
              b_buf = [Some [6, 6, 6, 6], Some [6, 6, 6, 6]],
              c_buf = [Some [8, 8, 8, 8], Some [8, 8, 8, 8]]\<rparr>,
      team_fault = None\<rparr>"
  unfolding parallel_for_def Let_def upt_0_2 replicate_2
  by (simp add: run_thread.simps step_def triad_body_def access_defs)

lemma prints_fields [simp]:
  "stdout (prints ps w) = stdout w @ ps"
  "heap (prints ps w) = heap w"
  "clock_reads (prints ps w) = clock_reads w"
  "regions_run (prints ps w) = regions_run w"
  "malloc_calls (prints ps w) = malloc_calls w"
  "var_i (prints ps w) = var_i w"
  by (induction ps arbitrary: w) (auto simp: prints_def printf_def)

lemma printf_fields [simp]:
  "stdout (printf fmt args w) = stdout w @ [(fmt, args)]"
  "heap (printf fmt args w) = heap w"
  "clock_reads (printf fmt args w) = clock_reads w"
  "regions_run (printf fmt args w) = regions_run w"
  "malloc_calls (printf fmt args w) = malloc_calls w"
  "var_i (printf fmt args w) = var_i w"
  by (simp_all add: printf_def)

lemma array_size_8_2: "array_size_of 8 2 = Some 4"
  by (simp add: array_size_of_def to_double_def exponent_def bit_length.simps round_half_even_def
      Let_def double_to_int_def trunc_def INT_MAX_def INT_MIN_def)

lemma strtoul_8: "strtoul ''8'' = (8, [])"
  by (simp add: strtoul_def isdigit_def digit_val_def isspace_def ULONG_MAX_def)

lemma startup_two_threads:
  assumes nt: "omp_get_num_threads e = 2"
    and ok: "\<And>tid which. malloc_ok e tid which"
    and sz: "0 < sizeof_STREAM_TYPE cfg" "sizeof_STREAM_TYPE cfg \<le> 16"
    and ck: "checktick (now e) 0 = Some (Inr q, n)"
    and arg: "fst (strtoul arg) = t" "0 < t" "array_size_of t 2 = Some k" "0 \<le> k" "k \<le> INT_MAX"
  shows "\<exists>w q'. startup cfg e [prog, arg] = Some (Inr (k, q', w))
          \<and> heap w =
               \<lparr>a_buf = [Some (map (fresh_contents e 0 0) [0..<nat k]),
                         Some (map (fresh_contents e 1 0) [0..<nat k])],
                b_buf = [Some (map (fresh_contents e 0 1) [0..<nat k]),
                         Some (map (fresh_contents e 1 1) [0..<nat k])],
                c_buf = [Some (map (fresh_contents e 0 2) [0..<nat k]),
                         Some (map (fresh_contents e 1 2) [0..<nat k])]\<rparr>
          \<and> regions_run w = 0 \<and> clock_reads w = n"
proof -
  have m: "\<And>tid which. malloc e (sizeof_STREAM_TYPE cfg) k tid which =
             Some (map (fresh_contents e tid which) [0..<nat k])"
    using malloc_length [of k "sizeof_STREAM_TYPE cfg" e] sz ok arg by simp
  show ?thesis
    using arg(1,2)
    by (simp add: startup_def read_arguments_def initial_world_def allocate_def
        banner_def nt arg(3) m upt_0_2 calibrate_def ck Let_def)
qed

lemma first_iteration_staged:
  assumes st: "startup cfg e argv = Some (Inr (k, q, w))" "regions_run w = 0"
      "clock_reads w = n" "heap w = H0"
    and conv: "double_to_int (1000000 * (now e (Suc n) - now e n)) = Some us"
    and r0: "\<And>i0. parallel_for init_body k (omp_get_num_threads e) (schedule e 0) i0 H0
               = \<lparr>shared_i = j1, pcs = p1, mem = H1, team_fault = None\<rparr>"
    and r1: "\<And>i0. parallel_for double_body k (omp_get_num_threads e) (schedule e (Suc 0)) i0 H1
               = \<lparr>shared_i = j2, pcs = p2, mem = H2, team_fault = None\<rparr>"
    and r2: "\<And>i0. parallel_for copy_body k (omp_get_num_threads e) (schedule e 2) i0 H2
               = \<lparr>shared_i = j3, pcs = p3, mem = H3, team_fault = None\<rparr>"
    and r3: "\<And>i0. parallel_for scale_body k (omp_get_num_threads e) (schedule e 3) i0 H3
               = \<lparr>shared_i = j4, pcs = p4, mem = H4, team_fault = None\<rparr>"
    and r4: "\<And>i0. parallel_for add_body k (omp_get_num_threads e) (schedule e 4) i0 H4
               = \<lparr>shared_i = j5, pcs = p5, mem = H5, team_fault = None\<rparr>"
    and r5: "\<And>i0. parallel_for triad_body k (omp_get_num_threads e) (schedule e 5) i0 H5
               = \<lparr>shared_i = j6, pcs = p6, mem = H6, team_fault = None\<rparr>"
  shows "heap_after_first_iteration cfg e argv = Some H6"
proof -
  obtain w1 where ini: "initialize e k w = Inr w1"
    and w1: "heap w1 = H1" "regions_run w1 = Suc 0" "clock_reads w1 = n"
    using st(2-4)
    by (simp add: initialize_def omp_parallel_for_def r0 and_then_def Let_def)
  obtain w2 where est: "estimate e k q w1 = Inr w2"
    and w2: "heap w2 = H2" "regions_run w2 = 2"
    using w1 conv
    by (simp add: estimate_def read_clock_def omp_parallel_for_def r1 and_then_def Let_def)
  have pro: "prologue cfg e argv = Some (Inr (k, w2))"
    by (simp add: prologue_def st(1) ini est and_then_def)
  obtain w3 col where it: "iteration e k w2 = Inr (w3, col)" and w3: "heap w3 = H6"
    using w2
    by (simp add: iteration_def timed_kernel_def read_clock_def omp_parallel_for_def
        r2 r3 r4 r5 and_then_def Let_def)
  show ?thesis
    by (simp add: heap_after_first_iteration_def pro it w3)
qed

lemma first_iteration_scenario:
  assumes nt: "omp_get_num_threads e = 2"
    and ok: "\<And>tid which. malloc_ok e tid which"
    and sz: "0 < sizeof_STREAM_TYPE cfg" "sizeof_STREAM_TYPE cfg \<le> 16"
    and ck: "checktick (now e) 0 = Some (Inr q, n)"
    and conv: "double_to_int (1000000 * (now e (Suc n) - now e n)) = Some us"
    and sched: "\<And>r. r < 6 \<Longrightarrow> schedule e r = []"
  shows "heap_after_first_iteration cfg e [prog, ''8''] =
           Some \<lparr>a_buf = [Some [30, 30, 30, 30], Some [30, 30, 30, 30]],
                 b_buf = [Some [6, 6, 6, 6], Some [6, 6, 6, 6]],
                 c_buf = [Some [8, 8, 8, 8], Some [8, 8, 8, 8]]\<rparr>"
proof -
  from startup_two_threads [OF nt ok sz ck, of "''8''" 8 4 prog]
  obtain w q' where st: "startup cfg e [prog, ''8''] = Some (Inr (4, q', w))"
    "regions_run w = 0" "clock_reads w = n"
    and h: "heap w =
               \<lparr>a_buf = [Some (map (fresh_contents e 0 0) [0, 1, 2, 3]),
                         Some (map (fresh_contents e 1 0) [0, 1, 2, 3])],
                b_buf = [Some (map (fresh_contents e 0 1) [0, 1, 2, 3]),
                         Some (map (fresh_contents e 1 1) [0, 1, 2, 3])],
                c_buf = [Some (map (fresh_contents e 0 2) [0, 1, 2, 3]),
                         Some (map (fresh_contents e 1 2) [0, 1, 2, 3])]\<rparr>"
    by (auto simp: strtoul_8 array_size_8_2 INT_MAX_def upt_0_4)
  let ?run = "\<lambda>body r i0 H. parallel_for body 4 (omp_get_num_threads e) (schedule e r) i0 H"
  have r0: "\<And>i0. ?run init_body 0 i0
               \<lparr>a_buf = [Some (map (fresh_contents e 0 0) [0, 1, 2, 3]),
                         Some (map (fresh_contents e 1 0) [0, 1, 2, 3])],
                b_buf = [Some (map (fresh_contents e 0 1) [0, 1, 2, 3]),
                         Some (map (fresh_contents e 1 1) [0, 1, 2, 3])],
                c_buf = [Some (map (fresh_contents e 0 2) [0, 1, 2, 3]),
                         Some (map (fresh_contents e 1 2) [0, 1, 2, 3])]\<rparr>
          = \<lparr>shared_i = 4, pcs = [At_end, At_end],
             mem = \<lparr>a_buf = [Some [1, 1, 1, 1], Some [1, 1, 1, 1]],
                     b_buf = [Some [2, 2, 2, 2], Some [2, 2, 2, 2]],
                     c_buf = [Some [0, 0, 0, 0], Some [0, 0, 0, 0]]\<rparr>,
             team_fault = None\<rparr>"
    by (simp add: nt sched init_region)
  have r1: "\<And>i0. ?run double_body (Suc 0) i0
               \<lparr>a_buf = [Some [1, 1, 1, 1], Some [1, 1, 1, 1]],
                b_buf = [Some [2, 2, 2, 2], Some [2, 2, 2, 2]],
                c_buf = [Some [0, 0, 0, 0], Some [0, 0, 0, 0]]\<rparr>
          = \<lparr>shared_i = 4, pcs = [At_end, At_end],
             mem = \<lparr>a_buf = [Some [2, 2, 2, 2], Some [2, 2, 2, 2]],
                     b_buf = [Some [2, 2, 2, 2], Some [2, 2, 2, 2]],
                     c_buf = [Some [0, 0, 0, 0], Some [0, 0, 0, 0]]\<rparr>,
             team_fault = None\<rparr>"
    by (simp add: nt sched double_region)
  have r2: "\<And>i0. ?run copy_body 2 i0
               \<lparr>a_buf = [Some [2, 2, 2, 2], Some [2, 2, 2, 2]],
                b_buf = [Some [2, 2, 2, 2], Some [2, 2, 2, 2]],
                c_buf = [Some [0, 0, 0, 0], Some [0, 0, 0, 0]]\<rparr>
          = \<lparr>shared_i = 4, pcs = [At_end, At_end],
             mem = \<lparr>a_buf = [Some [2, 2, 2, 2], Some [2, 2, 2, 2]],
                     b_buf = [Some [2, 2, 2, 2], Some [2, 2, 2, 2]],
                     c_buf = [Some [2, 2, 2, 2], Some [2, 2, 2, 2]]\<rparr>,
             team_fault = None\<rparr>"
    by (simp add: nt sched copy_region)
  have r3: "\<And>i0. ?run scale_body 3 i0
               \<lparr>a_buf = [Some [2, 2, 2, 2], Some [2, 2, 2, 2]],
                b_buf = [Some [2, 2, 2, 2], Some [2, 2, 2, 2]],
                c_buf = [Some [2, 2, 2, 2], Some [2, 2, 2, 2]]\<rparr>
          = \<lparr>shared_i = 4, pcs = [At_end, At_end],
             mem = \<lparr>a_buf = [Some [2, 2, 2, 2], Some [2, 2, 2, 2]],
                     b_buf = [Some [6, 6, 6, 6], Some [6, 6, 6, 6]],
                     c_buf = [Some [2, 2, 2, 2], Some [2, 2, 2, 2]]\<rparr>,
             team_fault = None\<rparr>"
    by (simp add: nt sched scale_region)
  have r4: "\<And>i0. ?run add_body 4 i0
               \<lparr>a_buf = [Some [2, 2, 2, 2], Some [2, 2, 2, 2]],
                b_buf = [Some [6, 6, 6, 6], Some [6, 6, 6, 6]],
                c_buf = [Some [2, 2, 2, 2], Some [2, 2, 2, 2]]\<rparr>
          = \<lparr>shared_i = 4, pcs = [At_end, At_end],
             mem = \<lparr>a_buf = [Some [2, 2, 2, 2], Some [2, 2, 2, 2]],
                     b_buf = [Some [6, 6, 6, 6], Some [6, 6, 6, 6]],
                     c_buf = [Some [8, 8, 8, 8], Some [8, 8, 8, 8]]\<rparr>,
             team_fault = None\<rparr>"
    by (simp add: nt sched add_region)
  have r5: "\<And>i0. ?run triad_body 5 i0
               \<lparr>a_buf = [Some [2, 2, 2, 2], Some [2, 2, 2, 2]],
                b_buf = [Some [6, 6, 6, 6], Some [6, 6, 6, 6]],
                c_buf = [Some [8, 8, 8, 8], Some [8, 8, 8, 8]]\<rparr>
          = \<lparr>shared_i = 4, pcs = [At_end, At_end],
             mem = \<lparr>a_buf = [Some [30, 30, 30, 30], Some [30, 30, 30, 30]],
                     b_buf = [Some [6, 6, 6, 6], Some [6, 6, 6, 6]],
                     c_buf = [Some [8, 8, 8, 8], Some [8, 8, 8, 8]]\<rparr>,
             team_fault = None\<rparr>"
    by (simp add: nt sched triad_region)
  show ?thesis
    by (rule first_iteration_staged [OF st h conv r0 r1 r2 r3 r4 r5])
qed

lemma now_failing: "now failing_env = now example_env"
  by (simp add: now_def failing_env_def fun_eq_iff)

lemma now_racing: "now racing_env = now example_env"
  by (simp add: now_def racing_env_def fun_eq_iff)

lemma example_clock_step:
  "double_to_int (1000000 * (now example_env (Suc n) - now example_env n)) = Some 1"
proof -
  have "now example_env (Suc n) - now example_env n =
          (1000 + 1000 * real n) / 1000000000 - real n / 1000000"
    by (simp add: now_def example_env_def mysecond_def)
  also have "\<dots> = 0.000001"
    by (simp add: add_divide_distrib)
  finally have d: "1000000 * (now example_env (Suc n) - now example_env n) = 1"
    by simp
  show ?thesis
    unfolding double_to_int_def trunc_def d by (simp add: INT_MIN_def INT_MAX_def)
qed

text \<open>
  Claim C1 as stated fails: for 8 elements on two threads whose loops do not disturb
  each other, the buffers at the end of the first iteration hold 30, 6 and 8, not 15, 3
  and 4. Between the initialization and the timing loop, lines 233-240 double every
  element of \<open>a\<close>.
\<close>

theorem first_pass_counterexample:
  "heap_after_first_iteration default_config example_env [''stream'', ''8''] =
     Some \<lparr>a_buf = [Some [30, 30, 30, 30], Some [30, 30, 30, 30]],
           b_buf = [Some [6, 6, 6, 6], Some [6, 6, 6, 6]],
           c_buf = [Some [8, 8, 8, 8], Some [8, 8, 8, 8]]\<rparr>
   \<and> heap_after_first_iteration default_config example_env [''stream'', ''8''] \<noteq>
     Some \<lparr>a_buf = [Some [15, 15, 15, 15], Some [15, 15, 15, 15]],
           b_buf = [Some [3, 3, 3, 3], Some [3, 3, 3, 3]],
           c_buf = [Some [4, 4, 4, 4], Some [4, 4, 4, 4]]\<rparr>"
  using first_iteration_scenario
          [of example_env default_config 2 40 1 "''stream''", OF _ _ _ _ example_clock_checktick
             example_clock_step]
  by (simp add: example_env_def default_config_def)

text \<open>
  Claim C1, amended. For 8 elements and a team of two threads, when every allocation
  succeeds, the calibration returns, and in each of the six loops up to the end of the
  first iteration (initialization, the doubling of \<open>a\<close>, Copy, Scale, Add, Triad) the
  threads run their loops one after the other: at the end of the first iteration every
  element of every thread's \<open>a\<close> is 30, of \<open>b\<close> is 6 and of \<open>c\<close> is 8.
\<close>

theorem first_pass_values:
  assumes "omp_get_num_threads e = 2"
    and "\<And>tid which. malloc_ok e tid which"
    and "0 < sizeof_STREAM_TYPE cfg" "sizeof_STREAM_TYPE cfg \<le> 16"
    and "checktick (now e) 0 = Some (Inr q, n)"
    and "double_to_int (1000000 * (now e (Suc n) - now e n)) = Some us"
    and "\<And>r. r < 6 \<Longrightarrow> schedule e r = []"
  shows "heap_after_first_iteration cfg e [prog, ''8''] =
           Some \<lparr>a_buf = [Some [30, 30, 30, 30], Some [30, 30, 30, 30]],
                 b_buf = [Some [6, 6, 6, 6], Some [6, 6, 6, 6]],
                 c_buf = [Some [8, 8, 8, 8], Some [8, 8, 8, 8]]\<rparr>"
  using assms by (rule first_iteration_scenario)

theorem first_pass_values_witness:
  "omp_get_num_threads example_env = 2
   \<and> (\<forall>tid which. malloc_ok example_env tid which)
   \<and> 0 < sizeof_STREAM_TYPE default_config \<and> sizeof_STREAM_TYPE default_config \<le> 16
   \<and> checktick (now example_env) 0 = Some (Inr 2, 40)
   \<and> double_to_int (1000000 * (now example_env (Suc 40) - now example_env 40)) = Some 1
   \<and> (\<forall>r. schedule example_env r = [])
   \<and> heap_after_first_iteration default_config example_env [''stream'', ''8''] =
       Some \<lparr>a_buf = [Some [30, 30, 30, 30], Some [30, 30, 30, 30]],
             b_buf = [Some [6, 6, 6, 6], Some [6, 6, 6, 6]],
             c_buf = [Some [8, 8, 8, 8], Some [8, 8, 8, 8]]\<rparr>"
  using first_pass_values
          [of example_env default_config 2 40 1 "''stream''", OF _ _ _ _ example_clock_checktick
             example_clock_step]
        example_clock_checktick example_clock_step [of 40]
  by (simp add: example_env_def default_config_def)

subsection \<open>The shared loop counter\<close>

lemma racing_env_fields:
  "omp_get_num_threads racing_env = 2"
  "sysconf_nprocessors racing_env = 2"
  "sched_getcpu racing_env tid = int tid"
  "malloc_ok racing_env tid which = True"
  "fresh_contents racing_env tid which j = 0"
  "schedule racing_env r = (if r = 2 then [1, 0, 0, 0, 0] else [])"
  by (simp_all add: racing_env_def example_env_def)

lemma array_size_2_2: "array_size_of 2 2 = Some 1"
  by (simp add: array_size_of_def to_double_def exponent_def bit_length.simps round_half_even_def
      Let_def double_to_int_def trunc_def INT_MAX_def INT_MIN_def)

lemma strtoul_2: "strtoul ''2'' = (2, [])"
  by (simp add: strtoul_def isdigit_def digit_val_def isspace_def ULONG_MAX_def)

lemma small_regions:
  "parallel_for init_body 1 2 [] i0
     \<lparr>a_buf = [Some [0], Some [0]], b_buf = [Some [0], Some [0]], c_buf = [Some [0], Some [0]]\<rparr>
   = \<lparr>shared_i = 1, pcs = [At_end, At_end],
      mem = \<lparr>a_buf = [Some [1], Some [1]], b_buf = [Some [2], Some [2]],
              c_buf = [Some [0], Some [0]]\<rparr>,
      team_fault = None\<rparr>"
  "parallel_for double_body 1 2 [] i0
     \<lparr>a_buf = [Some [1], Some [1]], b_buf = [Some [2], Some [2]], c_buf = [Some [0], Some [0]]\<rparr>
   = \<lparr>shared_i = 1, pcs = [At_end, At_end],
      mem = \<lparr>a_buf = [Some [2], Some [2]], b_buf = [Some [2], Some [2]],
              c_buf = [Some [0], Some [0]]\<rparr>,
      team_fault = None\<rparr>"
  "parallel_for copy_body 1 2 [1, 0, 0, 0, 0] i0
     \<lparr>a_buf = [Some [2], Some [2]], b_buf = [Some [2], Some [2]], c_buf = [Some [0], Some [0]]\<rparr>
   = \<lparr>shared_i = 1, pcs = [At_end, At_end],
      mem = \<lparr>a_buf = [Some [2], Some [2]], b_buf = [Some [2], Some [2]],
              c_buf = [Some [2], Some [0]]\<rparr>,
      team_fault = None\<rparr>"
  "parallel_for scale_body 1 2 [] i0
     \<lparr>a_buf = [Some [2], Some [2]], b_buf = [Some [2], Some [2]], c_buf = [Some [2], Some [0]]\<rparr>
   = \<lparr>shared_i = 1, pcs = [At_end, At_end],
      mem = \<lparr>a_buf = [Some [2], Some [2]], b_buf = [Some [6], Some [0]],
              c_buf = [Some [2], Some [0]]\<rparr>,
      team_fault = None\<rparr>"
  "parallel_for add_body 1 2 [] i0
     \<lparr>a_buf = [Some [2], Some [2]], b_buf = [Some [6], Some [0]], c_buf = [Some [2], Some [0]]\<rparr>
   = \<lparr>shared_i = 1, pcs = [At_end, At_end],
      mem = \<lparr>a_buf = [Some [2], Some [2]], b_buf = [Some [6], Some [0]],
              c_buf = [Some [8], Some [2]]\<rparr>,
      team_fault = None\<rparr>"
  "parallel_for triad_body 1 2 [] i0
     \<lparr>a_buf = [Some [2], Some [2]], b_buf = [Some [6], Some [0]], c_buf = [Some [8], Some [2]]\<rparr>
   = \<lparr>shared_i = 1, pcs = [At_end, At_end],
      mem = \<lparr>a_buf = [Some [30], Some [6]], b_buf = [Some [6], Some [0]],
              c_buf = [Some [8], Some [2]]\<rparr>,
      team_fault = None\<rparr>"
  unfolding parallel_for_def Let_def upt_0_2 replicate_2
  by (simp_all add: run_thread.simps step_def init_body_def double_body_def copy_body_def
      scale_body_def add_body_def triad_body_def access_defs)

lemma racing_run:
  "heap_after_first_iteration default_config racing_env [''stream'', ''2''] =
     Some \<lparr>a_buf = [Some [30], Some [6]], b_buf = [Some [6], Some [0]],
           c_buf = [Some [8], Some [2]]\<rparr>"
proof -
  have ck: "checktick (now racing_env) 0 = Some (Inr 2, 40)"
    by (simp add: now_racing example_clock_checktick)
  have conv: "double_to_int (1000000 * (now racing_env (Suc 40) - now racing_env 40)) = Some 1"
    unfolding now_racing by (rule example_clock_step)
  from startup_two_threads [of racing_env default_config 2 40 "''2''" 2 1 "''stream''"]
  obtain w q' where st: "startup default_config racing_env [''stream'', ''2''] = Some (Inr (1, q', w))"
    "regions_run w = 0" "clock_reads w = 40"
    and h: "heap w = \<lparr>a_buf = [Some [0], Some [0]], b_buf = [Some [0], Some [0]],
                        c_buf = [Some [0], Some [0]]\<rparr>"
    by (auto simp: ck strtoul_2 array_size_2_2 INT_MAX_def racing_env_fields default_config_def)
  let ?run = "\<lambda>body r i0 H.
     parallel_for body 1 (omp_get_num_threads racing_env) (schedule racing_env r) i0 H"
  have r0: "\<And>i0. ?run init_body 0 i0
               \<lparr>a_buf = [Some [0], Some [0]], b_buf = [Some [0], Some [0]],
                c_buf = [Some [0], Some [0]]\<rparr>
          = \<lparr>shared_i = 1, pcs = [At_end, At_end],
             mem = \<lparr>a_buf = [Some [1], Some [1]], b_buf = [Some [2], Some [2]],
                     c_buf = [Some [0], Some [0]]\<rparr>,
             team_fault = None\<rparr>"
    by (simp add: racing_env_fields small_regions)
  have r1: "\<And>i0. ?run double_body (Suc 0) i0
               \<lparr>a_buf = [Some [1], Some [1]], b_buf = [Some [2], Some [2]],
                c_buf = [Some [0], Some [0]]\<rparr>
          = \<lparr>shared_i = 1, pcs = [At_end, At_end],
             mem = \<lparr>a_buf = [Some [2], Some [2]], b_buf = [Some [2], Some [2]],
                     c_buf = [Some [0], Some [0]]\<rparr>,
             team_fault = None\<rparr>"
    by (simp add: racing_env_fields small_regions)
  have r2: "\<And>i0. ?run copy_body 2 i0
               \<lparr>a_buf = [Some [2], Some [2]], b_buf = [Some [2], Some [2]],
                c_buf = [Some [0], Some [0]]\<rparr>
          = \<lparr>shared_i = 1, pcs = [At_end, At_end],
             mem = \<lparr>a_buf = [Some [2], Some [2]], b_buf = [Some [2], Some [2]],
                     c_buf = [Some [2], Some [0]]\<rparr>,
             team_fault = None\<rparr>"
    using small_regions(3) by (simp add: racing_env_fields)
  have r3: "\<And>i0. ?run scale_body 3 i0
               \<lparr>a_buf = [Some [2], Some [2]], b_buf = [Some [2], Some [2]],
                c_buf = [Some [2], Some [0]]\<rparr>
          = \<lparr>shared_i = 1, pcs = [At_end, At_end],
             mem = \<lparr>a_buf = [Some [2], Some [2]], b_buf = [Some [6], Some [0]],
                     c_buf = [Some [2], Some [0]]\<rparr>,
             team_fault = None\<rparr>"
    by (simp add: racing_env_fields small_regions)
  have r4: "\<And>i0. ?run add_body 4 i0
               \<lparr>a_buf = [Some [2], Some [2]], b_buf = [Some [6], Some [0]],
                c_buf = [Some [2], Some [0]]\<rparr>
          = \<lparr>shared_i = 1, pcs = [At_end, At_end],
             mem = \<lparr>a_buf = [Some [2], Some [2]], b_buf = [Some [6], Some [0]],
                     c_buf = [Some [8], Some [2]]\<rparr>,
             team_fault = None\<rparr>"
    by (simp add: racing_env_fields small_regions)
  have r5: "\<And>i0. ?run triad_body 5 i0
               \<lparr>a_buf = [Some [2], Some [2]], b_buf = [Some [6], Some [0]],
                c_buf = [Some [8], Some [2]]\<rparr>
          = \<lparr>shared_i = 1, pcs = [At_end, At_end],
             mem = \<lparr>a_buf = [Some [30], Some [6]], b_buf = [Some [6], Some [0]],
                     c_buf = [Some [8], Some [2]]\<rparr>,
             team_fault = None\<rparr>"
    by (simp add: racing_env_fields small_regions)
  show ?thesis
    by (rule first_iteration_staged [OF st h conv r0 r1 r2 r3 r4 r5])
qed

lemma copy_race:
  "parallel_for copy_body 1 2 [1, 0, 0, 0, 0] 0
     \<lparr>a_buf = [Some [7], Some [9]], b_buf = [Some [0], Some [0]], c_buf = [Some [0], Some [0]]\<rparr>
   = \<lparr>shared_i = 1, pcs = [At_end, At_end],
      mem = \<lparr>a_buf = [Some [7], Some [9]], b_buf = [Some [0], Some [0]],
              c_buf = [Some [7], Some [0]]\<rparr>,
      team_fault = None\<rparr>"
  unfolding parallel_for_def Let_def upt_0_2 replicate_2
  by (simp add: run_thread.simps step_def copy_body_def access_defs)

text \<open>
  Claim C2: the code departs from it. With two threads and one element per buffer, let
  thread 1 execute \<open>i = 0\<close> and thread 0 then run through its whole Copy loop. Thread 0
  leaves \<open>i = 1\<close> behind, thread 1 finds \<open>i < array_size\<close> false and ends its loop
  without having executed its body: \<open>c[1][0]\<close> keeps its old value 0 instead of
  becoming \<open>a[1][0] = 9\<close>, and no fault occurs. In a whole run with two elements on two
  threads where this happens in the first Copy, the first iteration ends with 6, 0 and 2
  in thread 1's buffers, and 30, 6 and 8 in thread 0's.
\<close>

theorem shared_counter_race:
  "parallel_for copy_body 1 2 [1, 0, 0, 0, 0] 0
     \<lparr>a_buf = [Some [7], Some [9]], b_buf = [Some [0], Some [0]], c_buf = [Some [0], Some [0]]\<rparr>
   = \<lparr>shared_i = 1, pcs = [At_end, At_end],
      mem = \<lparr>a_buf = [Some [7], Some [9]], b_buf = [Some [0], Some [0]],
              c_buf = [Some [7], Some [0]]\<rparr>,
      team_fault = None\<rparr>
   \<and> heap_after_first_iteration default_config racing_env [''stream'', ''2''] =
     Some \<lparr>a_buf = [Some [30], Some [6]], b_buf = [Some [6], Some [0]],
           c_buf = [Some [8], Some [2]]\<rparr>"
  by (simp only: copy_race racing_run simp_thms)

subsection \<open>Failed allocations\<close>

lemma init_region_null:
  "parallel_for init_body 4 2 [] i0
     \<lparr>a_buf = [Some [a0, a1, a2, a3], Some [a4, a5, a6, a7]],
      b_buf = [Some [b0, b1, b2, b3], None],
      c_buf = [Some [c0, c1, c2, c3], Some [c4, c5, c6, c7]]\<rparr>
   = \<lparr>shared_i = 0, pcs = [At_end, At_body],
      mem = \<lparr>a_buf = [Some [1, 1, 1, 1], Some [a4, a5, a6, a7]],
              b_buf = [Some [2, 2, 2, 2], None],
              c_buf = [Some [0, 0, 0, 0], Some [c4, c5, c6, c7]]\<rparr>,
      team_fault = Some Null_deref\<rparr>"
  unfolding parallel_for_def Let_def upt_0_2 replicate_2
  by (simp add: run_thread.simps step_def init_body_def access_defs)

lemma failing_env_fields:
  "omp_get_num_threads failing_env = 2"
  "sysconf_nprocessors failing_env = 2"
  "sched_getcpu failing_env tid = int tid"
  "malloc_ok failing_env tid which = (\<not> (tid = 1 \<and> which = 1))"
  "fresh_contents failing_env tid which j = 0"
  "schedule failing_env r = []"
  by (simp_all add: failing_env_def example_env_def)

lemma failing_run:
  "main default_config failing_env [''stream'', ''8''] =
     Some (Undefined Null_deref,
       \<lparr>stdout =
          [(HLINE, []),
           (''STREAM version by Daniele Cesarini\<newline>'', []),
           (HLINE, []),
           (''This system uses %d bytes per array element.\<newline>'', [Int_arg 8]),
           (HLINE, []),
           (''Each kernel will be executed %d times.\<newline>'', [Int_arg 10]),
           (''The *best* time for each kernel (excluding the first iteration)\<newline>'', []),
           (''will be used to compute the reported bandwidth.\<newline>'', []),
           (HLINE, []),
           (''Total number of CPU: %d\<newline>'', [Int_arg 2]),
           (''Number of Threads requested = %d\<newline>'', [Int_arg 2]),
           (HLINE, []),
           (''Threads ID %d pinned on CPU %d\<newline>'', [Int_arg 0, Int_arg 0]),
           (''Threads ID %d pinned on CPU %d\<newline>'', [Int_arg 1, Int_arg 1]),
           (HLINE, []),
           (''Memory per array (a,b,c) = %.1f MiB (%.1f GiB).\<newline>'',
            [Dbl_arg (Finite (1 / 32768)), Dbl_arg (Finite (1 / 33554432))]),
           (''Memory required per threads = %.1f MiB (%.1f GiB).\<newline>'',
            [Dbl_arg (Finite (3 / 32768)), Dbl_arg (Finite (3 / 33554432))]),
           (''Total memory required (%d threads) = %.1f MiB (%.1f GiB).\<newline>'',
            [Int_arg 2, Dbl_arg (Finite (3 / 16384)), Dbl_arg (Finite (3 / 16777216))]),
           (HLINE, []),
           (''Your clock granularity/precision appears to be %d microseconds.\<newline>'',
            [Int_arg 2]),
           (HLINE, []),
           (''Initialize arrays...\<newline>'', [])],
        clock_reads = 40, regions_run = 1, malloc_calls = 6, var_i = 0,
        heap = \<lparr>a_buf = [Some [1, 1, 1, 1], Some [0, 0, 0, 0]],
                 b_buf = [Some [2, 2, 2, 2], None],
                 c_buf = [Some [0, 0, 0, 0], Some [0, 0, 0, 0]]\<rparr>\<rparr>)"
  by (simp add: main_def prologue_def startup_def read_arguments_def strtoul_8 initial_world_def
        allocate_def banner_def array_size_8_2 malloc_def to_size_t_def upt_0_4 upt_0_2
        calibrate_def now_failing example_clock_checktick Let_def
        initialize_def omp_parallel_for_def init_region_null and_then_def
        failing_env_fields default_config_def NTIMES_def prints_def printf_def)

text \<open>
  Claim C6 as stated fails: when the allocation of \<open>b\<close> fails for thread 1 (8 elements,
  two threads), nothing about it is printed and the run does not stop at the allocation.
  It goes on through the memory report and the calibration (40 clock samples) into the
  initialization loop, where the store through the null pointer is undefined behaviour.
\<close>

theorem failed_allocation_counterexample:
  "main default_config failing_env [''stream'', ''8''] =
     Some (Undefined Null_deref,
       \<lparr>stdout =
          [(HLINE, []),
           (''STREAM version by Daniele Cesarini\<newline>'', []),
           (HLINE, []),
           (''This system uses %d bytes per array element.\<newline>'', [Int_arg 8]),
           (HLINE, []),
           (''Each kernel will be executed %d times.\<newline>'', [Int_arg 10]),
           (''The *best* time for each kernel (excluding the first iteration)\<newline>'', []),
           (''will be used to compute the reported bandwidth.\<newline>'', []),
           (HLINE, []),
           (''Total number of CPU: %d\<newline>'', [Int_arg 2]),
           (''Number of Threads requested = %d\<newline>'', [Int_arg 2]),
           (HLINE, []),
           (''Threads ID %d pinned on CPU %d\<newline>'', [Int_arg 0, Int_arg 0]),
           (''Threads ID %d pinned on CPU %d\<newline>'', [Int_arg 1, Int_arg 1]),
           (HLINE, []),
           (''Memory per array (a,b,c) = %.1f MiB (%.1f GiB).\<newline>'',
            [Dbl_arg (Finite (1 / 32768)), Dbl_arg (Finite (1 / 33554432))]),
           (''Memory required per threads = %.1f MiB (%.1f GiB).\<newline>'',
            [Dbl_arg (Finite (3 / 32768)), Dbl_arg (Finite (3 / 33554432))]),
           (''Total memory required (%d threads) = %.1f MiB (%.1f GiB).\<newline>'',
            [Int_arg 2, Dbl_arg (Finite (3 / 16384)), Dbl_arg (Finite (3 / 16777216))]),
           (HLINE, []),
           (''Your clock granularity/precision appears to be %d microseconds.\<newline>'',
            [Int_arg 2]),
           (HLINE, []),
           (''Initialize arrays...\<newline>'', [])],
        clock_reads = 40, regions_run = 1, malloc_calls = 6, var_i = 0,
        heap = \<lparr>a_buf = [Some [1, 1, 1, 1], Some [0, 0, 0, 0]],
                 b_buf = [Some [2, 2, 2, 2], None],
                 c_buf = [Some [0, 0, 0, 0], Some [0, 0, 0, 0]]\<rparr>\<rparr>)"
  by (rule failing_run)

lemma now_malloc_ok: "now (e\<lparr>malloc_ok := ok'\<rparr>) = now e"
  by (simp add: now_def fun_eq_iff)

lemma startup_visible_malloc:
  "startup_visible cfg (e\<lparr>malloc_ok := ok'\<rparr>) argv = startup_visible cfg e argv"
proof (cases "read_arguments cfg argv initial_world")
  case (Inl stop)
  then show ?thesis by (simp add: startup_visible_def startup_def)
next
  case (Inr p)
  obtain n w0 where p: "p = (n, w0)" by (cases p)
  show ?thesis
  proof (cases "array_size_of n (omp_get_num_threads e)")
    case None
    then show ?thesis
      using Inr p
      by (simp add: startup_visible_def startup_def allocate_def Let_def banner_def visible_def)
  next
    case (Some asz)
    then show ?thesis
      using Inr p
      by (simp add: startup_visible_def startup_def allocate_def Let_def banner_def visible_def
          calibrate_def now_malloc_ok split: option.splits sum.splits prod.splits)
  qed
qed

lemma startup_null_buffers:
  assumes "startup cfg e argv = Some (Inr (n, q, w))" "tid < omp_get_num_threads e"
  shows "(\<not> malloc_ok e tid 0 \<longrightarrow> a_buf (heap w) ! tid = None)
       \<and> (\<not> malloc_ok e tid 1 \<longrightarrow> b_buf (heap w) ! tid = None)
       \<and> (\<not> malloc_ok e tid 2 \<longrightarrow> c_buf (heap w) ! tid = None)"
  using assms
  by (auto simp: startup_def allocate_def calibrate_def Let_def malloc_def
      split: sum.splits option.splits prod.splits if_splits)

lemma prologue_after_startup:
  assumes "startup cfg e argv = Some (Inr (n, q, w))"
  shows "prologue cfg e argv =
           Some (and_then (initialize e n w) (\<lambda>w3.
                 and_then (estimate e n q w3) (\<lambda>w4. Inr (n, w4))))"
  using assms by (simp add: prologue_def)

lemma failing_startup:
  "\<exists>w. startup default_config failing_env [''stream'', ''8''] = Some (Inr (4, 2, w))
        \<and> b_buf (heap w) ! 1 = None"
  by (simp add: startup_def read_arguments_def strtoul_8 initial_world_def
        allocate_def banner_def array_size_8_2 malloc_def upt_0_2
        calibrate_def now_failing example_clock_checktick Let_def
        failing_env_fields default_config_def)

text \<open>
  Claim C6, amended. The results of \<open>malloc\<close> are not checked. Whatever they are, the
  run up to the initialization prints the same lines, ends or goes on in the same way
  and takes the same clock samples; no failure is reported and the run does not stop at
  the allocation. When the run reaches the initialization, the slot of every buffer
  whose allocation has failed holds the null pointer, and the initialization loop is
  entered with it.
\<close>

theorem allocation_unchecked:
  "startup_visible cfg (e\<lparr>malloc_ok := ok'\<rparr>) argv = startup_visible cfg e argv
   \<and> (startup cfg e argv = Some (Inr (n, q, w)) \<and> tid < omp_get_num_threads e \<longrightarrow>
        (\<not> malloc_ok e tid 0 \<longrightarrow> a_buf (heap w) ! tid = None)
      \<and> (\<not> malloc_ok e tid 1 \<longrightarrow> b_buf (heap w) ! tid = None)
      \<and> (\<not> malloc_ok e tid 2 \<longrightarrow> c_buf (heap w) ! tid = None)
      \<and> prologue cfg e argv =
           Some (and_then (initialize e n w) (\<lambda>w3.
                 and_then (estimate e n q w3) (\<lambda>w4. Inr (n, w4)))))"
  using startup_visible_malloc startup_null_buffers prologue_after_startup
  by blast

theorem allocation_unchecked_witness:
  "(\<exists>w. startup default_config failing_env [''stream'', ''8''] = Some (Inr (4, 2, w))
         \<and> b_buf (heap w) ! 1 = None
         \<and> prologue default_config failing_env [''stream'', ''8''] =
             Some (and_then (initialize failing_env 4 w) (\<lambda>w3.
                   and_then (estimate failing_env 4 2 w3) (\<lambda>w4. Inr (4, w4)))))
   \<and> 1 < omp_get_num_threads failing_env
   \<and> \<not> malloc_ok failing_env 1 1
   \<and> startup_visible default_config (failing_env\<lparr>malloc_ok := (\<lambda>tid which. True)\<rparr>)
         [''stream'', ''8'']
       = startup_visible default_config failing_env [''stream'', ''8'']"
proof -
  from failing_startup obtain w where
    w: "startup default_config failing_env [''stream'', ''8''] = Some (Inr (4, 2, w))"
       "b_buf (heap w) ! 1 = None"
    by blast
  from allocation_unchecked
         [where cfg = default_config and e = failing_env and ok' = "\<lambda>tid which. True"
            and argv = "[''stream'', ''8'']" and n = 4 and q = 2 and w = w and tid = 1]
       w
  show ?thesis by (auto simp: failing_env_fields)
qed

subsection \<open>The kernels when the threads run one after the other\<close>

text \<open>
  A thread that is not disturbed runs its body once for every index from 0 to
  \<open>array_size - 1\<close>, in this order, and leaves \<open>i = array_size\<close> behind.
\<close>

lemma run_thread_from_test:
  assumes body: "\<And>j m. j < N \<Longrightarrow> Q m \<Longrightarrow> body t (int j) m = Inr (f j m) \<and> Q (f j m)"
    and N: "int N \<le> INT_MAX"
  shows "t < length p \<Longrightarrow> p ! t = At_test \<Longrightarrow> j \<le> N \<Longrightarrow> Q m \<Longrightarrow>
         run_thread body (int N) t \<lparr>shared_i = int j, pcs = p, mem = m, team_fault = None\<rparr> =
           \<lparr>shared_i = int N, pcs = p[t := At_end], mem = fold f [j..<N] m, team_fault = None\<rparr>"
proof (induction "N - j" arbitrary: j p m)
  case 0
  then have j: "j = N" by simp
  let ?s1 = "\<lparr>shared_i = int j, pcs = p[t := At_end], mem = m, team_fault = None\<rparr>"
  have "run_thread body (int N) t \<lparr>shared_i = int j, pcs = p, mem = m, team_fault = None\<rparr>
          = run_thread body (int N) t ?s1"
    using 0 j by (subst run_thread.simps) (simp add: step_def)
  also have "\<dots> = ?s1"
    using 0 by (subst run_thread.simps) simp
  finally show ?case using j by simp
next
  case (Suc d)
  then have j: "j < N" by simp
  have ne: "int j \<noteq> INT_MAX" using j N by simp
  from body [OF j \<open>Q m\<close>]
  have b: "body t (int j) m = Inr (f j m)" and q: "Q (f j m)" by simp_all
  let ?s0 = "\<lparr>shared_i = int j, pcs = p, mem = m, team_fault = None\<rparr>"
  let ?s1 = "\<lparr>shared_i = int j, pcs = p[t := At_body], mem = m, team_fault = None\<rparr>"
  let ?s2 = "\<lparr>shared_i = int j, pcs = p[t := At_incr], mem = f j m, team_fault = None\<rparr>"
  let ?s3 = "\<lparr>shared_i = int (Suc j), pcs = p[t := At_test], mem = f j m, team_fault = None\<rparr>"
  have "run_thread body (int N) t ?s0 = run_thread body (int N) t ?s1"
    using Suc.prems j by (subst run_thread.simps) (simp add: step_def)
  also have "\<dots> = run_thread body (int N) t ?s2"
    using Suc.prems j b by (subst run_thread.simps) (simp add: step_def)
  also have "\<dots> = run_thread body (int N) t ?s3"
    using Suc.prems j ne by (subst run_thread.simps) (simp add: step_def add.commute)
  also have "\<dots> = \<lparr>shared_i = int N, pcs = p[t := At_test, t := At_end],
                      mem = fold f [Suc j..<N] (f j m), team_fault = None\<rparr>"
    using Suc.prems Suc.hyps(2) j q by (intro Suc.hyps(1)) simp_all
  finally show ?case using j by (simp add: upt_conv_Cons)
qed

lemma run_thread_alone:
  assumes body: "\<And>j m. j < N \<Longrightarrow> Q m \<Longrightarrow> body t (int j) m = Inr (f j m) \<and> Q (f j m)"
    and N: "int N \<le> INT_MAX"
    and s: "t < length p" "p ! t = At_init" "Q m"
  shows "run_thread body (int N) t \<lparr>shared_i = i0, pcs = p, mem = m, team_fault = None\<rparr> =
           \<lparr>shared_i = int N, pcs = p[t := At_end], mem = fold f [0..<N] m, team_fault = None\<rparr>"
proof -
  let ?s1 = "\<lparr>shared_i = int 0, pcs = p[t := At_test], mem = m, team_fault = None\<rparr>"
  have "run_thread body (int N) t \<lparr>shared_i = i0, pcs = p, mem = m, team_fault = None\<rparr>
          = run_thread body (int N) t ?s1"
    using s by (subst run_thread.simps) (simp add: step_def)
  also have "\<dots> = \<lparr>shared_i = int N, pcs = p[t := At_test, t := At_end],
                      mem = fold f [0..<N] m, team_fault = None\<rparr>"
    using s by (intro run_thread_from_test [where Q = Q and f = f and body = body and t = t and N = N, OF body N]) simp_all
  finally show ?thesis by simp
qed

text \<open>
  With the empty schedule the threads of a region run one after the other, each through
  its whole loop.
\<close>

lemma fold_keeps:
  assumes "\<And>j m. j < N \<Longrightarrow> Q m \<Longrightarrow> Q (f j m)" "Q m" "k \<le> N"
  shows "Q (fold f [0..<k] m)"
  using assms(3)
proof (induction k)
  case 0
  show ?case using assms(2) by simp
next
  case (Suc k)
  then show ?case using assms(1) by simp
qed

lemma serial_threads:
  assumes body: "\<And>t j m. t < T \<Longrightarrow> j < N \<Longrightarrow> Q m \<Longrightarrow>
                   body t (int j) m = Inr (f t j m) \<and> Q (f t j m)"
    and N: "int N \<le> INT_MAX" and m: "Q m"
  shows "k \<le> T \<Longrightarrow>
         fold (run_thread body (int N)) [0..<k]
           \<lparr>shared_i = i0, pcs = replicate T At_init, mem = m, team_fault = None\<rparr>
         = \<lparr>shared_i = (if k = 0 then i0 else int N),
            pcs = replicate k At_end @ replicate (T - k) At_init,
            mem = fold (\<lambda>t. fold (f t) [0..<N]) [0..<k] m, team_fault = None\<rparr>
         \<and> Q (fold (\<lambda>t. fold (f t) [0..<N]) [0..<k] m)"
proof (induction k)
  case 0
  show ?case using m by simp
next
  case (Suc k)
  then have k: "k < T" by simp
  let ?m = "fold (\<lambda>t. fold (f t) [0..<N]) [0..<k] m"
  let ?p = "replicate k At_end @ replicate (T - k) At_init"
  from Suc have ih: "fold (run_thread body (int N)) [0..<k]
           \<lparr>shared_i = i0, pcs = replicate T At_init, mem = m, team_fault = None\<rparr>
         = \<lparr>shared_i = (if k = 0 then i0 else int N), pcs = ?p, mem = ?m, team_fault = None\<rparr>"
    and q: "Q ?m" by simp_all
  have b: "\<And>j m. j < N \<Longrightarrow> Q m \<Longrightarrow> body k (int j) m = Inr (f k j m) \<and> Q (f k j m)"
    using body [OF k] by blast
  have pk: "k < length ?p" "?p ! k = At_init"
    using k by (simp_all add: nth_append)
  have upd: "?p[k := At_end] = replicate (Suc k) At_end @ replicate (T - Suc k) At_init"
  proof -
    have "replicate (T - k) At_init = At_init # replicate (T - Suc k) At_init"
      using k by (cases "T - k") (auto simp: Suc_diff_Suc)
    then show ?thesis
      by (simp add: list_update_append replicate_append_same)
  qed
  have run: "run_thread body (int N) k
               \<lparr>shared_i = (if k = 0 then i0 else int N), pcs = ?p, mem = ?m, team_fault = None\<rparr>
             = \<lparr>shared_i = int N, pcs = ?p[k := At_end], mem = fold (f k) [0..<N] ?m,
                team_fault = None\<rparr>"
    by (rule run_thread_alone [where Q = Q and f = "f k" and body = body and t = k and N = N,
          OF b N pk q])
  have q': "Q (fold (f k) [0..<N] ?m)"
  proof (rule fold_keeps [where Q = Q and N = N and f = "f k" and k = N])
    show "\<And>j m. j < N \<Longrightarrow> Q m \<Longrightarrow> Q (f k j m)" using b by blast
    show "Q ?m" by (rule q)
    show "N \<le> N" by simp
  qed
  show ?case
    using q' by (simp add: ih run upd del: replicate_Suc)
qed

lemma serial_region:
  assumes body: "\<And>t j m. t < T \<Longrightarrow> j < N \<Longrightarrow> Q m \<Longrightarrow>
                   body t (int j) m = Inr (f t j m) \<and> Q (f t j m)"
    and N: "int N \<le> INT_MAX" and m: "Q m"
  shows "parallel_for body (int N) T [] i0 m
         = \<lparr>shared_i = (if T = 0 then i0 else int N), pcs = replicate T At_end,
            mem = fold (\<lambda>t. fold (f t) [0..<N]) [0..<T] m, team_fault = None\<rparr>"
  using serial_threads [where Q = Q and f = f and body = body and T = T and N = N and k = T
          and m = m and ?i0.0 = i0, OF body N m]
  by (simp add: parallel_for_def)

lemma elementwise_fold:
  fixes getd :: "'m \<Rightarrow> nat \<Rightarrow> nat \<Rightarrow> 'v" and g :: "'m \<Rightarrow> nat \<Rightarrow> nat \<Rightarrow> 'v"
  assumes step: "\<And>m t j. okm m \<Longrightarrow> t < T \<Longrightarrow> j < N \<Longrightarrow>
            okm (f t j m) \<and> g (f t j m) = g m \<and>
            (\<forall>t' j'. getd (f t j m) t' j' = (if t' = t \<and> j' = j then g m t j else getd m t' j'))"
    and okm: "okm m"
  shows "okm (fold (\<lambda>t. fold (f t) [0..<N]) [0..<T] m)
       \<and> g (fold (\<lambda>t. fold (f t) [0..<N]) [0..<T] m) = g m
       \<and> (\<forall>t < T. \<forall>j < N. getd (fold (\<lambda>t. fold (f t) [0..<N]) [0..<T] m) t j = g m t j)"
proof -
  define Inv where "Inv t0 j0 m' \<longleftrightarrow> okm m' \<and> g m' = g m \<and>
      (\<forall>t j. (t < t0 \<or> (t = t0 \<and> j < j0)) \<and> j < N \<longrightarrow> getd m' t j = g m t j)" for t0 j0 m'
  have inner: "Inv t k (fold (f t) [0..<k] m')" if "Inv t 0 m'" "t < T" "k \<le> N" for t k m'
    using that(3)
  proof (induction k)
    case 0
    show ?case using that(1) by simp
  next
    case (Suc k)
    then have I: "Inv t k (fold (f t) [0..<k] m')" and k: "k < N" by simp_all
    let ?m = "fold (f t) [0..<k] m'"
    from step [of ?m t k] I k that(2)
    have s: "okm (f t k ?m)" "g (f t k ?m) = g ?m"
      "\<And>t' j'. getd (f t k ?m) t' j' = (if t' = t \<and> j' = k then g ?m t k else getd ?m t' j')"
      by (auto simp: Inv_def)
    have "Inv t (Suc k) (f t k ?m)"
      unfolding Inv_def using I s by (auto simp: Inv_def less_Suc_eq)
    then show ?case by simp
  qed
  have outer: "Inv k 0 (fold (\<lambda>t. fold (f t) [0..<N]) [0..<k] m)" if "k \<le> T" for k
    using that
  proof (induction k)
    case 0
    show ?case using okm by (simp add: Inv_def)
  next
    case (Suc k)
    then have I: "Inv k 0 (fold (\<lambda>t. fold (f t) [0..<N]) [0..<k] m)" and k: "k < T" by simp_all
    from inner [OF I k, of N]
    have "Inv k N (fold (f k) [0..<N] (fold (\<lambda>t. fold (f t) [0..<N]) [0..<k] m))" by simp
    then have "Inv (Suc k) 0 (fold (f k) [0..<N] (fold (\<lambda>t. fold (f t) [0..<N]) [0..<k] m))"
      by (auto simp: Inv_def less_Suc_eq)
    then show ?case by simp
  qed
  from outer [of T] show ?thesis by (auto simp: Inv_def)
qed

text \<open>
  The four kernels, for any team and any length of the buffers: when the threads run one
  after the other, Copy makes every \<open>c[t][j]\<close> equal to \<open>a[t][j]\<close>, Scale makes every
  \<open>b[t][j]\<close> equal to \<open>SCALAR * c[t][j]\<close>, Add makes every \<open>c[t][j]\<close> equal to
  \<open>a[t][j] + b[t][j]\<close> and Triad makes every \<open>a[t][j]\<close> equal to
  \<open>b[t][j] + SCALAR * c[t][j]\<close>, each with the values held when the kernel started;
  the other two arrays are left as they were, and no fault occurs.
\<close>

lemma read_at_ok:
  assumes "t < length p" "p ! t = Some xs" "j < length xs"
  shows "read_at p t (int j) = Inr (elem p t j)"
  using assms by (simp add: read_at_def elem_def)

lemma write_at_ok:
  assumes "t < length p" "p ! t = Some xs" "j < length xs"
  shows "write_at p t (int j) v = Inr (put p t j v)"
  using assms by (simp add: write_at_def put_def)

lemma elem_put:
  assumes "t < length p" "p ! t = Some xs" "j < length xs"
  shows "elem (put p t j v) t' j' = (if t' = t \<and> j' = j then v else elem p t' j')"
  using assms by (auto simp: elem_def put_def nth_list_update)

lemma wf_buffers:
  assumes "well_formed T N m" "t < T"
  obtains xs ys zs where "a_buf m ! t = Some xs" "length xs = N"
    "b_buf m ! t = Some ys" "length ys = N" "c_buf m ! t = Some zs" "length zs = N"
    "t < length (a_buf m)" "t < length (b_buf m)" "t < length (c_buf m)"
  using assms unfolding well_formed_def by (metis insertCI)

lemma wf_put_a:
  assumes "well_formed T N m" "t < T"
  shows "well_formed T N (m\<lparr>a_buf := put (a_buf m) t j v\<rparr>)"
  using assms unfolding well_formed_def put_def
  by (auto simp: nth_list_update)

lemma wf_put_b:
  assumes "well_formed T N m" "t < T"
  shows "well_formed T N (m\<lparr>b_buf := put (b_buf m) t j v\<rparr>)"
  using assms unfolding well_formed_def put_def
  by (auto simp: nth_list_update)

lemma wf_put_c:
  assumes "well_formed T N m" "t < T"
  shows "well_formed T N (m\<lparr>c_buf := put (c_buf m) t j v\<rparr>)"
  using assms unfolding well_formed_def put_def
  by (auto simp: nth_list_update)

lemma copy_body_ok:
  assumes "well_formed T N m" "t < T" "j < N"
  shows "copy_body t (int j) m = Inr (m\<lparr>c_buf := put (c_buf m) t j (elem (a_buf m) t j)\<rparr>)"
proof -
  from wf_buffers [OF assms(1,2)] obtain xs ys zs where
    "a_buf m ! t = Some xs" "length xs = N" "b_buf m ! t = Some ys" "length ys = N"
    "c_buf m ! t = Some zs" "length zs = N"
    "t < length (a_buf m)" "t < length (b_buf m)" "t < length (c_buf m)" by blast
  then show ?thesis
    using assms(3) by (simp add: copy_body_def and_then_def read_at_ok write_at_ok)
qed

lemma scale_body_ok:
  assumes "well_formed T N m" "t < T" "j < N"
  shows "scale_body t (int j) m =
           Inr (m\<lparr>b_buf := put (b_buf m) t j (SCALAR * elem (c_buf m) t j)\<rparr>)"
proof -
  from wf_buffers [OF assms(1,2)] obtain xs ys zs where
    "a_buf m ! t = Some xs" "length xs = N" "b_buf m ! t = Some ys" "length ys = N"
    "c_buf m ! t = Some zs" "length zs = N"
    "t < length (a_buf m)" "t < length (b_buf m)" "t < length (c_buf m)" by blast
  then show ?thesis
    using assms(3) by (simp add: scale_body_def and_then_def read_at_ok write_at_ok)
qed

lemma add_body_ok:
  assumes "well_formed T N m" "t < T" "j < N"
  shows "add_body t (int j) m =
           Inr (m\<lparr>c_buf := put (c_buf m) t j (elem (a_buf m) t j + elem (b_buf m) t j)\<rparr>)"
proof -
  from wf_buffers [OF assms(1,2)] obtain xs ys zs where
    "a_buf m ! t = Some xs" "length xs = N" "b_buf m ! t = Some ys" "length ys = N"
    "c_buf m ! t = Some zs" "length zs = N"
    "t < length (a_buf m)" "t < length (b_buf m)" "t < length (c_buf m)" by blast
  then show ?thesis
    using assms(3) by (simp add: add_body_def and_then_def read_at_ok write_at_ok)
qed

lemma triad_body_ok:
  assumes "well_formed T N m" "t < T" "j < N"
  shows "triad_body t (int j) m =
           Inr (m\<lparr>a_buf := put (a_buf m) t j
                  (elem (b_buf m) t j + SCALAR * elem (c_buf m) t j)\<rparr>)"
proof -
  from wf_buffers [OF assms(1,2)] obtain xs ys zs where
    "a_buf m ! t = Some xs" "length xs = N" "b_buf m ! t = Some ys" "length ys = N"
    "c_buf m ! t = Some zs" "length zs = N"
    "t < length (a_buf m)" "t < length (b_buf m)" "t < length (c_buf m)" by blast
  then show ?thesis
    using assms(3) by (simp add: triad_body_def and_then_def read_at_ok write_at_ok)
qed


lemma copy_undisturbed:
  assumes wf: "well_formed T N m" and N: "int N \<le> INT_MAX"
  shows "\<exists>m'. parallel_for copy_body (int N) T [] i0 m =
               \<lparr>shared_i = (if T = 0 then i0 else int N), pcs = replicate T At_end,
                mem = m', team_fault = None\<rparr>
           \<and> well_formed T N m' \<and> a_buf m' = a_buf m \<and> b_buf m' = b_buf m
           \<and> (\<forall>t < T. \<forall>j < N. elem (c_buf m') t j = elem (a_buf m) t j)"
proof -
  define f where "f t j m' = m'\<lparr>c_buf := put (c_buf m') t j (elem (a_buf m') t j)\<rparr>"
    for t j and m' :: arrays
  define Q where "Q m' \<longleftrightarrow> well_formed T N m' \<and> a_buf m' = a_buf m \<and> b_buf m' = b_buf m"
    for m' :: arrays
  define g where "g m' t j = elem (a_buf m') t j" for m' :: arrays and t j
  have Qf: "Q (f t j m')" if "Q m'" "t < T" for t j m'
    using that wf_put_c [of T N m' t] by (simp add: Q_def f_def)
  have body: "copy_body t (int j) m' = Inr (f t j m') \<and> Q (f t j m')"
    if "t < T" "j < N" "Q m'" for t j m'
    using that copy_body_ok [of T N m' t j] Qf by (simp add: Q_def f_def)
  have region: "parallel_for copy_body (int N) T [] i0 m =
               \<lparr>shared_i = (if T = 0 then i0 else int N), pcs = replicate T At_end,
                mem = fold (\<lambda>t. fold (f t) [0..<N]) [0..<T] m, team_fault = None\<rparr>"
  proof (rule serial_region [where Q = Q and f = f])
    show "\<And>t j m'. t < T \<Longrightarrow> j < N \<Longrightarrow> Q m' \<Longrightarrow>
            copy_body t (int j) m' = Inr (f t j m') \<and> Q (f t j m')"
      using body by blast
    show "int N \<le> INT_MAX" by (rule N)
    show "Q m" using wf by (simp add: Q_def)
  qed
  have step: "Q (f t j m') \<and> g (f t j m') = g m' \<and>
        (\<forall>t' j'. elem (c_buf (f t j m')) t' j' =
                   (if t' = t \<and> j' = j then g m' t j else elem (c_buf m') t' j'))"
    if "Q m'" "t < T" "j < N" for m' t j
  proof -
    from that have w: "well_formed T N m'" by (simp add: Q_def)
    from wf_buffers [OF w that(2)] obtain xs ys zs where
      bufs: "a_buf m' ! t = Some xs" "length xs = N" "b_buf m' ! t = Some ys" "length ys = N"
      "c_buf m' ! t = Some zs" "length zs = N"
      "t < length (a_buf m')" "t < length (b_buf m')" "t < length (c_buf m')" by blast
    have "g (f t j m') = g m'"
      by (simp add: g_def f_def fun_eq_iff)
    moreover have "\<And>t' j'. elem (c_buf (f t j m')) t' j' =
                   (if t' = t \<and> j' = j then g m' t j else elem (c_buf m') t' j')"
      using bufs that(3) by (simp add: f_def g_def elem_put)
    ultimately show ?thesis using Qf [OF that(1,2)] by blast
  qed
  have "Q m" using wf by (simp add: Q_def)
  from elementwise_fold [where okm = Q and f = f and g = g and T = T and N = N
         and getd = "\<lambda>m'. elem (c_buf m')" and m = m, OF step this]
  have fin: "Q (fold (\<lambda>t. fold (f t) [0..<N]) [0..<T] m)"
    "\<forall>t < T. \<forall>j < N. elem (c_buf (fold (\<lambda>t. fold (f t) [0..<N]) [0..<T] m)) t j = g m t j"
    by blast+
  show ?thesis
    using region fin by (auto simp: Q_def g_def)
qed

lemma scale_undisturbed:
  assumes wf: "well_formed T N m" and N: "int N \<le> INT_MAX"
  shows "\<exists>m'. parallel_for scale_body (int N) T [] i0 m =
               \<lparr>shared_i = (if T = 0 then i0 else int N), pcs = replicate T At_end,
                mem = m', team_fault = None\<rparr>
           \<and> well_formed T N m' \<and> a_buf m' = a_buf m \<and> c_buf m' = c_buf m
           \<and> (\<forall>t < T. \<forall>j < N. elem (b_buf m') t j = SCALAR * elem (c_buf m) t j)"
proof -
  define f where "f t j m' = m'\<lparr>b_buf := put (b_buf m') t j (SCALAR * elem (c_buf m') t j)\<rparr>"
    for t j and m' :: arrays
  define Q where "Q m' \<longleftrightarrow> well_formed T N m' \<and> a_buf m' = a_buf m \<and> c_buf m' = c_buf m"
    for m' :: arrays
  define g where "g m' t j = SCALAR * elem (c_buf m') t j" for m' :: arrays and t j
  have Qf: "Q (f t j m')" if "Q m'" "t < T" for t j m'
    using that wf_put_b [of T N m' t] by (simp add: Q_def f_def)
  have body: "scale_body t (int j) m' = Inr (f t j m') \<and> Q (f t j m')"
    if "t < T" "j < N" "Q m'" for t j m'
    using that scale_body_ok [of T N m' t j] Qf by (simp add: Q_def f_def)
  have region: "parallel_for scale_body (int N) T [] i0 m =
               \<lparr>shared_i = (if T = 0 then i0 else int N), pcs = replicate T At_end,
                mem = fold (\<lambda>t. fold (f t) [0..<N]) [0..<T] m, team_fault = None\<rparr>"
  proof (rule serial_region [where Q = Q and f = f])
    show "\<And>t j m'. t < T \<Longrightarrow> j < N \<Longrightarrow> Q m' \<Longrightarrow>
            scale_body t (int j) m' = Inr (f t j m') \<and> Q (f t j m')"
      using body by blast
    show "int N \<le> INT_MAX" by (rule N)
    show "Q m" using wf by (simp add: Q_def)
  qed
  have step: "Q (f t j m') \<and> g (f t j m') = g m' \<and>
        (\<forall>t' j'. elem (b_buf (f t j m')) t' j' =
                   (if t' = t \<and> j' = j then g m' t j else elem (b_buf m') t' j'))"
    if "Q m'" "t < T" "j < N" for m' t j
  proof -
    from that have w: "well_formed T N m'" by (simp add: Q_def)
    from wf_buffers [OF w that(2)] obtain xs ys zs where
      bufs: "a_buf m' ! t = Some xs" "length xs = N" "b_buf m' ! t = Some ys" "length ys = N"
      "c_buf m' ! t = Some zs" "length zs = N"
      "t < length (a_buf m')" "t < length (b_buf m')" "t < length (c_buf m')" by blast
    have "g (f t j m') = g m'"
      by (simp add: g_def f_def fun_eq_iff)
    moreover have "\<And>t' j'. elem (b_buf (f t j m')) t' j' =
                   (if t' = t \<and> j' = j then g m' t j else elem (b_buf m') t' j')"
      using bufs that(3) by (simp add: f_def g_def elem_put)
    ultimately show ?thesis using Qf [OF that(1,2)] by blast
  qed
  have "Q m" using wf by (simp add: Q_def)
  from elementwise_fold [where okm = Q and f = f and g = g and T = T and N = N
         and getd = "\<lambda>m'. elem (b_buf m')" and m = m, OF step this]
  have fin: "Q (fold (\<lambda>t. fold (f t) [0..<N]) [0..<T] m)"
    "\<forall>t < T. \<forall>j < N. elem (b_buf (fold (\<lambda>t. fold (f t) [0..<N]) [0..<T] m)) t j = g m t j"
    by blast+
  show ?thesis
    using region fin by (auto simp: Q_def g_def)
qed

lemma add_undisturbed:
  assumes wf: "well_formed T N m" and N: "int N \<le> INT_MAX"
  shows "\<exists>m'. parallel_for add_body (int N) T [] i0 m =
               \<lparr>shared_i = (if T = 0 then i0 else int N), pcs = replicate T At_end,
                mem = m', team_fault = None\<rparr>
           \<and> well_formed T N m' \<and> a_buf m' = a_buf m \<and> b_buf m' = b_buf m
           \<and> (\<forall>t < T. \<forall>j < N. elem (c_buf m') t j = elem (a_buf m) t j + elem (b_buf m) t j)"
proof -
  define f where "f t j m' = m'\<lparr>c_buf := put (c_buf m') t j (elem (a_buf m') t j + elem (b_buf m') t j)\<rparr>"
    for t j and m' :: arrays
  define Q where "Q m' \<longleftrightarrow> well_formed T N m' \<and> a_buf m' = a_buf m \<and> b_buf m' = b_buf m"
    for m' :: arrays
  define g where "g m' t j = elem (a_buf m') t j + elem (b_buf m') t j" for m' :: arrays and t j
  have Qf: "Q (f t j m')" if "Q m'" "t < T" for t j m'
    using that wf_put_c [of T N m' t] by (simp add: Q_def f_def)
  have body: "add_body t (int j) m' = Inr (f t j m') \<and> Q (f t j m')"
    if "t < T" "j < N" "Q m'" for t j m'
    using that add_body_ok [of T N m' t j] Qf by (simp add: Q_def f_def)
  have region: "parallel_for add_body (int N) T [] i0 m =
               \<lparr>shared_i = (if T = 0 then i0 else int N), pcs = replicate T At_end,
                mem = fold (\<lambda>t. fold (f t) [0..<N]) [0..<T] m, team_fault = None\<rparr>"
  proof (rule serial_region [where Q = Q and f = f])
    show "\<And>t j m'. t < T \<Longrightarrow> j < N \<Longrightarrow> Q m' \<Longrightarrow>
            add_body t (int j) m' = Inr (f t j m') \<and> Q (f t j m')"
      using body by blast
    show "int N \<le> INT_MAX" by (rule N)
    show "Q m" using wf by (simp add: Q_def)
  qed
  have step: "Q (f t j m') \<and> g (f t j m') = g m' \<and>
        (\<forall>t' j'. elem (c_buf (f t j m')) t' j' =
                   (if t' = t \<and> j' = j then g m' t j else elem (c_buf m') t' j'))"
    if "Q m'" "t < T" "j < N" for m' t j
  proof -
    from that have w: "well_formed T N m'" by (simp add: Q_def)
    from wf_buffers [OF w that(2)] obtain xs ys zs where
      bufs: "a_buf m' ! t = Some xs" "length xs = N" "b_buf m' ! t = Some ys" "length ys = N"
      "c_buf m' ! t = Some zs" "length zs = N"
      "t < length (a_buf m')" "t < length (b_buf m')" "t < length (c_buf m')" by blast
    have "g (f t j m') = g m'"
      by (simp add: g_def f_def fun_eq_iff)
    moreover have "\<And>t' j'. elem (c_buf (f t j m')) t' j' =
                   (if t' = t \<and> j' = j then g m' t j else elem (c_buf m') t' j')"
      using bufs that(3) by (simp add: f_def g_def elem_put)
    ultimately show ?thesis using Qf [OF that(1,2)] by blast
  qed
  have "Q m" using wf by (simp add: Q_def)
  from elementwise_fold [where okm = Q and f = f and g = g and T = T and N = N
         and getd = "\<lambda>m'. elem (c_buf m')" and m = m, OF step this]
  have fin: "Q (fold (\<lambda>t. fold (f t) [0..<N]) [0..<T] m)"
    "\<forall>t < T. \<forall>j < N. elem (c_buf (fold (\<lambda>t. fold (f t) [0..<N]) [0..<T] m)) t j = g m t j"
    by blast+
  show ?thesis
    using region fin by (auto simp: Q_def g_def)
qed

lemma triad_undisturbed:
  assumes wf: "well_formed T N m" and N: "int N \<le> INT_MAX"
  shows "\<exists>m'. parallel_for triad_body (int N) T [] i0 m =
               \<lparr>shared_i = (if T = 0 then i0 else int N), pcs = replicate T At_end,
                mem = m', team_fault = None\<rparr>
           \<and> well_formed T N m' \<and> b_buf m' = b_buf m \<and> c_buf m' = c_buf m
           \<and> (\<forall>t < T. \<forall>j < N. elem (a_buf m') t j = elem (b_buf m) t j + SCALAR * elem (c_buf m) t j)"
proof -
  define f where "f t j m' = m'\<lparr>a_buf := put (a_buf m') t j (elem (b_buf m') t j + SCALAR * elem (c_buf m') t j)\<rparr>"
    for t j and m' :: arrays
  define Q where "Q m' \<longleftrightarrow> well_formed T N m' \<and> b_buf m' = b_buf m \<and> c_buf m' = c_buf m"
    for m' :: arrays
  define g where "g m' t j = elem (b_buf m') t j + SCALAR * elem (c_buf m') t j" for m' :: arrays and t j
  have Qf: "Q (f t j m')" if "Q m'" "t < T" for t j m'
    using that wf_put_a [of T N m' t] by (simp add: Q_def f_def)
  have body: "triad_body t (int j) m' = Inr (f t j m') \<and> Q (f t j m')"
    if "t < T" "j < N" "Q m'" for t j m'
    using that triad_body_ok [of T N m' t j] Qf by (simp add: Q_def f_def)
  have region: "parallel_for triad_body (int N) T [] i0 m =
               \<lparr>shared_i = (if T = 0 then i0 else int N), pcs = replicate T At_end,
                mem = fold (\<lambda>t. fold (f t) [0..<N]) [0..<T] m, team_fault = None\<rparr>"
  proof (rule serial_region [where Q = Q and f = f])
    show "\<And>t j m'. t < T \<Longrightarrow> j < N \<Longrightarrow> Q m' \<Longrightarrow>
            triad_body t (int j) m' = Inr (f t j m') \<and> Q (f t j m')"
      using body by blast
    show "int N \<le> INT_MAX" by (rule N)
    show "Q m" using wf by (simp add: Q_def)
  qed
  have step: "Q (f t j m') \<and> g (f t j m') = g m' \<and>
        (\<forall>t' j'. elem (a_buf (f t j m')) t' j' =
                   (if t' = t \<and> j' = j then g m' t j else elem (a_buf m') t' j'))"
    if "Q m'" "t < T" "j < N" for m' t j
  proof -
    from that have w: "well_formed T N m'" by (simp add: Q_def)
    from wf_buffers [OF w that(2)] obtain xs ys zs where
      bufs: "a_buf m' ! t = Some xs" "length xs = N" "b_buf m' ! t = Some ys" "length ys = N"
      "c_buf m' ! t = Some zs" "length zs = N"
      "t < length (a_buf m')" "t < length (b_buf m')" "t < length (c_buf m')" by blast
    have "g (f t j m') = g m'"
      by (simp add: g_def f_def fun_eq_iff)
    moreover have "\<And>t' j'. elem (a_buf (f t j m')) t' j' =
                   (if t' = t \<and> j' = j then g m' t j else elem (a_buf m') t' j')"
      using bufs that(3) by (simp add: f_def g_def elem_put)
    ultimately show ?thesis using Qf [OF that(1,2)] by blast
  qed
  have "Q m" using wf by (simp add: Q_def)
  from elementwise_fold [where okm = Q and f = f and g = g and T = T and N = N
         and getd = "\<lambda>m'. elem (a_buf m')" and m = m, OF step this]
  have fin: "Q (fold (\<lambda>t. fold (f t) [0..<N]) [0..<T] m)"
    "\<forall>t < T. \<forall>j < N. elem (a_buf (fold (\<lambda>t. fold (f t) [0..<N]) [0..<T] m)) t j = g m t j"
    by blast+
  show ?thesis
    using region fin by (auto simp: Q_def g_def)
qed

end
